theory Spec2Isabelle
  imports Complex_Main "HOL-Library.Log_Nat" "HOL-Library.Word"
begin

section \<open>Binary floating point\<close>

text \<open>
  The program computes with Python floats (IEEE binary64) in the sampler and the driver,
  and with NumPy \<^verbatim>\<open>float32\<close> arrays (IEEE binary32) in the tinter. A finite
  float is modelled by the rational number it denotes; every operation computes the exact
  rational result and rounds it to the format: to nearest, ties to even, with gradual
  underflow below the smallest normal number and overflow to an infinity. IEEE has two
  zeros: \<open>Fin 0\<close> is \<^verbatim>\<open>0.0\<close> and \<open>NegZero\<close> is \<^verbatim>\<open>-0.0\<close>; they compare equal and
  differ in the sign they give to a product, a quotient and a printed number.
\<close>

definition rne :: "rat \<Rightarrow> int" where
  "rne x = (let f = \<lfloor>x\<rfloor>; r = x - of_int f in
     if r < 1 / 2 then f else if 1 / 2 < r then f + 1 else if even f then f else f + 1)"

definition pow2 :: "int \<Rightarrow> rat" where
  "pow2 e = (if 0 \<le> e then 2 ^ nat e else 1 / 2 ^ nat (- e))"

text \<open>\<open>ilog2 x\<close> is the integer \<open>k\<close> with \<open>2\<^sup>k \<le> x < 2\<^sup>k\<^sup>+\<^sup>1\<close>, for positive \<open>x\<close>.\<close>

definition ilog2 :: "rat \<Rightarrow> int" where
  "ilog2 x = (if 1 \<le> x then bitlen \<lfloor>x\<rfloor> - 1 else - bitlen (\<lceil>1 / x\<rceil> - 1))"

text \<open>
  The exponent of the last place of \<open>x\<close> in a format with \<open>p\<close> significant bits whose
  smallest positive number is \<open>2\<^sup>e\<^sup>m\<close>, and \<open>x\<close> rounded to a multiple of it.
\<close>

definition expo :: "nat \<Rightarrow> int \<Rightarrow> rat \<Rightarrow> int" where
  "expo p em x = max em (ilog2 \<bar>x\<bar> - int p + 1)"

definition fl_round :: "nat \<Rightarrow> int \<Rightarrow> rat \<Rightarrow> rat" where
  "fl_round p em x = (if x = 0 then 0 else
     let e = expo p em x in of_int (rne (x / pow2 e)) * pow2 e)"

text \<open>
  A format: the number of significant bits, the exponent of the smallest positive
  number, and the exponent of the largest finite numbers (all below \<open>2\<^sup>e\<^sup>m\<^sup>a\<^sup>x\<^sup>+\<^sup>1\<close>).
\<close>

record format =
  prec :: nat
  emin :: int
  emax :: int

definition binary32 :: format where
  "binary32 = \<lparr>prec = 24, emin = - 149, emax = 127\<rparr>"

definition binary64 :: format where
  "binary64 = \<lparr>prec = 53, emin = - 1074, emax = 1023\<rparr>"

datatype fl = Fin rat | NegZero | PosInf | NegInf | NaN

definition inf_signed :: "bool \<Rightarrow> fl" where
  "inf_signed positive = (if positive then PosInf else NegInf)"

definition zero_signed :: "bool \<Rightarrow> fl" where
  "zero_signed positive = (if positive then Fin 0 else NegZero)"

text \<open>
  The float nearest to a real number. A result too large is an infinity; a negative
  number that rounds to zero gives the negative zero.
\<close>

definition fl_of_rat :: "format \<Rightarrow> rat \<Rightarrow> fl" where
  "fl_of_rat F x = (let r = fl_round (prec F) (emin F) x in
     if pow2 (emax F + 1) \<le> \<bar>r\<bar> then inf_signed (0 < r)
     else if r = 0 \<and> x < 0 then NegZero else Fin r)"

text \<open>The rationals that are values of the format.\<close>

definition representable :: "format \<Rightarrow> rat \<Rightarrow> bool" where
  "representable F x = (fl_of_rat F x = Fin x)"

text \<open>The value of a finite float, its sign bit, and the two kinds of special operands.\<close>

fun val :: "fl \<Rightarrow> rat" where
  "val (Fin a) = a"
| "val x = 0"

fun negative :: "fl \<Rightarrow> bool" where
  "negative (Fin a) = (a < 0)"
| "negative NegZero = True"
| "negative NegInf = True"
| "negative x = False"

definition is_inf :: "fl \<Rightarrow> bool" where
  "is_inf x = (x = PosInf \<or> x = NegInf)"

definition is_zero :: "fl \<Rightarrow> bool" where
  "is_zero x = (x = Fin 0 \<or> x = NegZero)"

fun fl_cast :: "format \<Rightarrow> fl \<Rightarrow> fl" where
  "fl_cast F (Fin a) = fl_of_rat F a"
| "fl_cast F x = x"

fun fl_neg :: "fl \<Rightarrow> fl" where
  "fl_neg (Fin a) = (if a = 0 then NegZero else Fin (- a))"
| "fl_neg NegZero = Fin 0"
| "fl_neg PosInf = NegInf"
| "fl_neg NegInf = PosInf"
| "fl_neg NaN = NaN"

text \<open>\<open>x < y\<close>: false when an operand is NaN; the two zeros are equal.\<close>

definition fl_lt :: "fl \<Rightarrow> fl \<Rightarrow> bool" where
  "fl_lt x y = (if x = NaN \<or> y = NaN then False
     else if x = PosInf \<or> y = NegInf then False
     else if x = NegInf \<or> y = PosInf then True
     else val x < val y)"

text \<open>
  Addition: infinities of opposite signs give NaN; a sum that is exactly zero is
  \<^verbatim>\<open>0.0\<close>, except that \<^verbatim>\<open>-0.0 + -0.0\<close> is \<^verbatim>\<open>-0.0\<close>.
\<close>

definition fl_add :: "format \<Rightarrow> fl \<Rightarrow> fl \<Rightarrow> fl" where
  "fl_add F x y = (if x = NaN \<or> y = NaN then NaN
     else if is_inf x then (if is_inf y \<and> x \<noteq> y then NaN else x)
     else if is_inf y then y
     else if x = NegZero \<and> y = NegZero then NegZero
     else fl_of_rat F (val x + val y))"

definition fl_sub :: "format \<Rightarrow> fl \<Rightarrow> fl \<Rightarrow> fl" where
  "fl_sub F x y = fl_add F x (fl_neg y)"

text \<open>
  Multiplication: the sign of the result is positive when the signs of the operands
  agree; an infinity times a zero is NaN.
\<close>

definition fl_mul :: "format \<Rightarrow> fl \<Rightarrow> fl \<Rightarrow> fl" where
  "fl_mul F x y = (if x = NaN \<or> y = NaN then NaN
     else if is_inf x \<or> is_inf y
       then (if is_zero x \<or> is_zero y then NaN else inf_signed (negative x = negative y))
     else if is_zero x \<or> is_zero y then zero_signed (negative x = negative y)
     else fl_of_rat F (val x * val y))"

text \<open>Division as NumPy performs it: dividing by zero gives an infinity or NaN, no exception.\<close>

definition fl_div :: "format \<Rightarrow> fl \<Rightarrow> fl \<Rightarrow> fl" where
  "fl_div F x y = (if x = NaN \<or> y = NaN then NaN
     else if is_inf x then (if is_inf y then NaN else inf_signed (negative x = negative y))
     else if is_inf y then zero_signed (negative x = negative y)
     else if is_zero y
       then (if is_zero x then NaN else inf_signed (negative x = negative y))
     else if is_zero x then zero_signed (negative x = negative y)
     else fl_of_rat F (val x / val y))"

section \<open>Python and NumPy primitives\<close>

datatype error =
  ValueError | OverflowError | IndexError | UnidentifiedImageError
  | FileNotFoundError | FileExistsError | IsADirectoryError | NotADirectoryError
  | UndefinedCast

text \<open>A float literal of the source, and an \<^verbatim>\<open>int\<close> converted to a float.\<close>

definition py_float :: "rat \<Rightarrow> fl" where
  "py_float q = fl_of_rat binary64 q"

text \<open>
  Python's two-argument \<^verbatim>\<open>min(a, b)\<close> keeps \<open>a\<close> unless \<open>b < a\<close>, and
  \<^verbatim>\<open>max(a, b)\<close> keeps \<open>a\<close> unless \<open>b > a\<close>; a comparison with NaN is false.
\<close>

definition py_min :: "fl \<Rightarrow> fl \<Rightarrow> fl" where
  "py_min a b = (if fl_lt b a then b else a)"

definition py_max :: "fl \<Rightarrow> fl \<Rightarrow> fl" where
  "py_max a b = (if fl_lt a b then b else a)"

text \<open>\<^verbatim>\<open>round(x)\<close> of a float: an \<^verbatim>\<open>int\<close>, ties to even; it raises on NaN and infinities.\<close>

fun py_round :: "fl \<Rightarrow> error + int" where
  "py_round (Fin a) = Inr (rne a)"
| "py_round NegZero = Inr 0"
| "py_round NaN = Inl ValueError"
| "py_round x = Inl OverflowError"

fun decimal :: "nat \<Rightarrow> string" where
  "decimal n = (if n < 10 then [''0123456789'' ! n]
     else decimal (n div 10) @ [''0123456789'' ! (n mod 10)])"

definition repr_int :: "int \<Rightarrow> string" where
  "repr_int i = (if i < 0 then ''-'' @ decimal (nat (- i)) else decimal (nat i))"

text \<open>
  \<^verbatim>\<open>f"{x:.kf}"\<close>: the exact magnitude of the float, rounded to \<open>k\<close> decimals (ties to
  even), after a minus sign when the sign bit is set, also on \<^verbatim>\<open>-0.0\<close> and on a
  negative value that prints as zero.
\<close>

definition fixed :: "nat \<Rightarrow> rat \<Rightarrow> string" where
  "fixed k m =
     (let n = nat (rne (m * 10 ^ k));
          ip = decimal (n div 10 ^ k);
          fp = decimal (n mod 10 ^ k)
      in ip @ (if k = 0 then '''' else ''.'' @ replicate (k - length fp) CHR ''0'' @ fp))"

fun format_f :: "nat \<Rightarrow> fl \<Rightarrow> string" where
  "format_f k (Fin a) = (if a < 0 then ''-'' else '''') @ fixed k \<bar>a\<bar>"
| "format_f k NegZero = ''-'' @ fixed k 0"
| "format_f k PosInf = ''inf''"
| "format_f k NegInf = ''-inf''"
| "format_f k NaN = ''nan''"

definition rstrip :: "string \<Rightarrow> string \<Rightarrow> string" where
  "rstrip s chars = rev (dropWhile (\<lambda>c. c \<in> set chars) (rev s))"

text \<open>
  \<^verbatim>\<open>x.astype(np.uint8)\<close> of a \<^verbatim>\<open>float32\<close>: the C conversion, which truncates
  toward zero. C leaves the conversion undefined when the truncated value is no
  \<^verbatim>\<open>uint8\<close>; NumPy raises nothing there, and the model stops with \<open>UndefinedCast\<close>.
\<close>

type_synonym byte = "8 word"

definition trunc :: "rat \<Rightarrow> int" where
  "trunc v = (if 0 \<le> v then \<lfloor>v\<rfloor> else \<lceil>v\<rceil>)"

fun astype_uint8 :: "fl \<Rightarrow> error + byte" where
  "astype_uint8 (Fin v) =
     (if - 1 < v \<and> v < 256 then Inr (word_of_int (trunc v)) else Inl UndefinedCast)"
| "astype_uint8 NegZero = Inr 0"
| "astype_uint8 x = Inl UndefinedCast"

definition astype_float32 :: "byte \<Rightarrow> fl" where
  "astype_float32 b = fl_of_rat binary32 (of_nat (unat b))"

text \<open>\<^verbatim>\<open>np.clip(x, lo, hi)\<close> is \<^verbatim>\<open>minimum(maximum(x, lo), hi)\<close>; NaN propagates.\<close>

fun np_clip :: "fl \<Rightarrow> fl \<Rightarrow> fl \<Rightarrow> fl" where
  "np_clip NaN lo hi = NaN"
| "np_clip x lo hi = (if fl_lt x lo then lo else if fl_lt hi x then hi else x)"

text \<open>An exception ends the computation: the rest runs on a result only.\<close>

fun bind :: "'e + 'a \<Rightarrow> ('a \<Rightarrow> 'e + 'b) \<Rightarrow> 'e + 'b" where
  "bind (Inl e) k = Inl e"
| "bind (Inr x) k = k x"

fun sequence :: "('e + 'a) list \<Rightarrow> 'e + 'a list" where
  "sequence [] = Inr []"
| "sequence (r # rs) = bind r (\<lambda>x. bind (sequence rs) (\<lambda>xs. Inr (x # xs)))"

section \<open>Images\<close>

text \<open>
  A Pillow image has a mode, a size (width, height) and one pixel per position, stored
  row by row. The modes of 8-bit PNG files without a palette are modelled: \<open>L\<close>
  (grey), \<open>LA\<close> (grey and alpha), \<open>RGB\<close> and \<open>RGBA\<close>.
\<close>

record 'p raster =
  width :: nat
  height :: nat
  pixels :: "'p list"

type_synonym rgb = "byte \<times> byte \<times> byte"
type_synonym rgba = "byte \<times> byte \<times> byte \<times> byte"

datatype image =
  ImgL "byte raster"
  | ImgLA "(byte \<times> byte) raster"
  | ImgRGB "rgb raster"
  | ImgRGBA "rgba raster"

definition wf_raster :: "'p raster \<Rightarrow> bool" where
  "wf_raster r = (length (pixels r) = width r * height r)"

fun wf_image :: "image \<Rightarrow> bool" where
  "wf_image (ImgL r) = wf_raster r"
| "wf_image (ImgLA r) = wf_raster r"
| "wf_image (ImgRGB r) = wf_raster r"
| "wf_image (ImgRGBA r) = wf_raster r"

definition map_raster :: "('p \<Rightarrow> 'q) \<Rightarrow> 'p raster \<Rightarrow> 'q raster" where
  "map_raster f r = \<lparr>width = width r, height = height r, pixels = map f (pixels r)\<rparr>"

fun size_of :: "image \<Rightarrow> nat \<times> nat" where
  "size_of (ImgL r) = (width r, height r)"
| "size_of (ImgLA r) = (width r, height r)"
| "size_of (ImgRGB r) = (width r, height r)"
| "size_of (ImgRGBA r) = (width r, height r)"

text \<open>\<^verbatim>\<open>img.convert("RGBA")\<close>: an image without alpha becomes fully opaque.\<close>

fun convert_RGBA :: "image \<Rightarrow> rgba raster" where
  "convert_RGBA (ImgL r) = map_raster (\<lambda>l. (l, l, l, 255)) r"
| "convert_RGBA (ImgLA r) = map_raster (\<lambda>(l, a). (l, l, l, a)) r"
| "convert_RGBA (ImgRGB r) = map_raster (\<lambda>(r, g, b). (r, g, b, 255)) r"
| "convert_RGBA (ImgRGBA r) = r"

text \<open>\<^verbatim>\<open>img.convert("RGB")\<close>: the alpha channel is dropped.\<close>

fun convert_RGB :: "image \<Rightarrow> rgb raster" where
  "convert_RGB (ImgL r) = map_raster (\<lambda>l. (l, l, l)) r"
| "convert_RGB (ImgLA r) = map_raster (\<lambda>(l, a). (l, l, l)) r"
| "convert_RGB (ImgRGB r) = r"
| "convert_RGB (ImgRGBA r) = map_raster (\<lambda>(r, g, b, a). (r, g, b)) r"

text \<open>
  \<^verbatim>\<open>arr[y, x]\<close> on the array of an image (shape height, width, channels): an index
  below zero counts from the end, an index out of range raises.
\<close>

definition np_index :: "int \<Rightarrow> nat \<Rightarrow> nat option" where
  "np_index i n = (if 0 \<le> i \<and> i < int n then Some (nat i)
     else if - int n \<le> i \<and> i < 0 then Some (nat (i + int n)) else None)"

definition getitem :: "'p raster \<Rightarrow> int \<Rightarrow> int \<Rightarrow> error + 'p" where
  "getitem arr y x =
     (case (np_index y (height arr), np_index x (width arr)) of
        (Some row, Some col) \<Rightarrow> Inr (pixels arr ! (row * width arr + col))
      | _ \<Rightarrow> Inl IndexError)"

section \<open>The colour sampler\<close>

definition clamp01 :: "fl \<Rightarrow> fl" where
  "clamp01 x = py_max (py_float 0) (py_min (py_float 1) x)"

text \<open>\<^verbatim>\<open>int(round(255 - (v * 255)))\<close>\<close>

definition img_coord :: "fl \<Rightarrow> error + int" where
  "img_coord v = py_round (fl_sub binary64 (py_float 255) (fl_mul binary64 v (py_float 255)))"

text \<open>The first half of the sampler: from the two parameters to the clamped coordinates.\<close>

definition pixel_coords :: "fl \<Rightarrow> fl \<Rightarrow> error + (int \<times> int)" where
  "pixel_coords temperature downfall =
     (let t = clamp01 temperature;
          d = clamp01 downfall;
          d_proj = fl_mul binary64 d t
      in bind (img_coord t) (\<lambda>x_img.
         bind (img_coord d_proj) (\<lambda>y_img.
         Inr (max 0 (min 255 x_img), max 0 (min 255 y_img)))))"

text \<open>\<^verbatim>\<open>tuple(int(v) for v in p)\<close>\<close>

fun int_tuple :: "rgb \<Rightarrow> int \<times> int \<times> int" where
  "int_tuple (r, g, b) = (uint r, uint g, uint b)"

definition sample_biome_color :: "image \<Rightarrow> fl \<Rightarrow> fl \<Rightarrow> error + (int \<times> int \<times> int)" where
  "sample_biome_color colormap_img temperature downfall =
     bind (pixel_coords temperature downfall) (\<lambda>(x_img, y_img).
     let cmap_np = convert_RGB colormap_img
     in bind (getitem cmap_np y_img x_img) (\<lambda>p. Inr (int_tuple p)))"

section \<open>The luma tinter\<close>

definition f32_lit :: "rat \<Rightarrow> fl" where
  "f32_lit q = fl_cast binary32 (py_float q)"

text \<open>Rec.601 luma of one pixel, computed in \<^verbatim>\<open>float32\<close> from left to right.\<close>

fun lum :: "rgba \<Rightarrow> fl" where
  "lum (r, g, b, a) =
     fl_add binary32
       (fl_add binary32
          (fl_mul binary32 (f32_lit (299 / 1000)) (astype_float32 r))
          (fl_mul binary32 (f32_lit (587 / 1000)) (astype_float32 g)))
       (fl_mul binary32 (f32_lit (114 / 1000)) (astype_float32 b))"

definition lum_norm :: "rgba \<Rightarrow> fl" where
  "lum_norm p = fl_div binary32 (lum p) (f32_lit 255)"

definition biome :: "int \<Rightarrow> fl" where
  "biome c = fl_div binary32 (fl_of_rat binary32 (of_int c)) (f32_lit 255)"

text \<open>One channel of \<^verbatim>\<open>np.clip(lum_norm * biome, 0.0, 1.0) * 255.0\<close>, and its conversion.\<close>

definition tinted_rgb :: "rgba \<Rightarrow> int \<Rightarrow> fl" where
  "tinted_rgb p c =
     fl_mul binary32 (np_clip (fl_mul binary32 (lum_norm p) (biome c)) (py_float 0) (py_float 1))
       (f32_lit 255)"

definition tinted :: "rgba \<Rightarrow> int \<Rightarrow> error + byte" where
  "tinted p c = astype_uint8 (tinted_rgb p c)"

text \<open>A pure-white pixel is given exactly the tint value \<open>c\<close> in a channel.\<close>

definition white_exact :: "int \<Rightarrow> bool" where
  "white_exact c = (tinted (255, 255, 255, 255) c = Inr (word_of_int c))"

text \<open>The alpha channel \<^verbatim>\<open>arr[..., 3:4]\<close> is carried over as it is.\<close>

fun alpha :: "rgba \<Rightarrow> byte" where
  "alpha (r, g, b, a) = a"

fun tint_pixel :: "int \<times> int \<times> int \<Rightarrow> rgba \<Rightarrow> error + rgba" where
  "tint_pixel (cr, cg, cb) (r, g, b, a) =
     bind (tinted (r, g, b, a) cr) (\<lambda>r'.
     bind (tinted (r, g, b, a) cg) (\<lambda>g'.
     bind (tinted (r, g, b, a) cb) (\<lambda>b'. Inr (r', g', b', alpha (r, g, b, a)))))"

definition tint_grayscale_rgba :: "image \<Rightarrow> int \<times> int \<times> int \<Rightarrow> error + image" where
  "tint_grayscale_rgba img biome_rgb =
     (let rgba = convert_RGBA img
      in bind (sequence (map (tint_pixel biome_rgb) (pixels rgba))) (\<lambda>out.
         Inr (ImgRGBA \<lparr>width = width rgba, height = height rgba, pixels = out\<rparr>)))"

section \<open>The compositor\<close>

text \<open>
  Pillow's \<^verbatim>\<open>resize(size, Image.NEAREST)\<close> scales each axis on its own. Along an
  axis of \<open>src\<close> source positions and \<open>dst\<close> result positions it steps through the
  source in doubles: it starts at half the step \<open>src / dst\<close> and adds the step once
  per result position, and reads the source at the position truncated to an integer
  (\<^verbatim>\<open>COORD\<close>: \<open>-1\<close> below zero). The rounding of the repeated additions is part of
  the result: at a position that is an integer in exact arithmetic the sum can come out
  just below it.
\<close>

fun scale_pos :: "fl \<Rightarrow> fl \<Rightarrow> nat \<Rightarrow> fl" where
  "scale_pos xo a 0 = xo"
| "scale_pos xo a (Suc i) = fl_add binary64 (scale_pos xo a i) a"

fun COORD :: "fl \<Rightarrow> int" where
  "COORD (Fin v) = (if v < 0 then - 1 else trunc v)"
| "COORD NegZero = 0"
| "COORD x = - 1"

definition nearest :: "nat \<Rightarrow> nat \<Rightarrow> nat \<Rightarrow> int" where
  "nearest src dst i =
     (let a = fl_div binary64 (py_float (of_nat src)) (py_float (of_nat dst));
          xo = fl_add binary64 (py_float 0) (fl_mul binary64 a (py_float (1 / 2)))
      in COORD (scale_pos xo a i))"

text \<open>
  A result position whose source position falls outside the source keeps the fill
  value, zero in every channel. A result size with a zero is refused.
\<close>

definition source_pixel :: "'p \<Rightarrow> 'p raster \<Rightarrow> int \<Rightarrow> int \<Rightarrow> 'p" where
  "source_pixel fill r yin xin =
     (if 0 \<le> yin \<and> yin < int (height r) \<and> 0 \<le> xin \<and> xin < int (width r)
      then pixels r ! (nat yin * width r + nat xin) else fill)"

fun resize_raster :: "'p \<Rightarrow> 'p raster \<Rightarrow> nat \<times> nat \<Rightarrow> 'p raster" where
  "resize_raster fill r (w, h) =
     \<lparr>width = w, height = h,
      pixels = concat (map (\<lambda>y. map (\<lambda>x.
          source_pixel fill r (nearest (height r) h y) (nearest (width r) w x)) [0..<w]) [0..<h])\<rparr>"

fun resize :: "image \<Rightarrow> nat \<times> nat \<Rightarrow> error + image" where
  "resize img (w, h) =
     (if w = 0 \<or> h = 0 then Inl ValueError
      else Inr (case img of
          ImgL r \<Rightarrow> ImgL (resize_raster 0 r (w, h))
        | ImgLA r \<Rightarrow> ImgLA (resize_raster (0, 0) r (w, h))
        | ImgRGB r \<Rightarrow> ImgRGB (resize_raster (0, 0, 0) r (w, h))
        | ImgRGBA r \<Rightarrow> ImgRGBA (resize_raster (0, 0, 0, 0) r (w, h))))"

text \<open>
  Pillow's \<^verbatim>\<open>Image.alpha_composite(im1, im2)\<close> requires two RGBA images of one size
  and raises \<^verbatim>\<open>ValueError\<close> otherwise. Its result holds, at each position, the
  second image's pixel over the first's; the operator on two pixels is the library's and
  is a parameter here.
\<close>

fun alpha_composite :: "(rgba \<Rightarrow> rgba \<Rightarrow> rgba) \<Rightarrow> image \<Rightarrow> image \<Rightarrow> error + image" where
  "alpha_composite over (ImgRGBA im1) (ImgRGBA im2) =
     (if (width im1, height im1) = (width im2, height im2)
      then Inr (ImgRGBA \<lparr>width = width im1, height = height im1,
                        pixels = map2 over (pixels im1) (pixels im2)\<rparr>)
      else Inl ValueError)"
| "alpha_composite over im1 im2 = Inl ValueError"

definition composite_overlay_onto_base ::
    "(rgba \<Rightarrow> rgba \<Rightarrow> rgba) \<Rightarrow> image \<Rightarrow> image \<Rightarrow> error + image" where
  "composite_overlay_onto_base over base overlay_rgba =
     (let base_rgba = convert_RGBA base
      in bind (if size_of overlay_rgba \<noteq> (width base_rgba, height base_rgba)
               then resize overlay_rgba (width base_rgba, height base_rgba)
               else Inr overlay_rgba)
           (\<lambda>overlay_rgba'. alpha_composite over (ImgRGBA base_rgba) overlay_rgba'))"

section \<open>The pipeline driver\<close>

text \<open>
  The driver reads and writes files. The file system is a map from paths to nodes; a
  regular file holds an image when it decodes as one. The parsed command line is a
  record; \<^verbatim>\<open>argparse\<close> itself is not modelled. The outcome of a run is the exit
  status of the process, what it wrote to the error stream, and the file system it
  leaves. An exception that nothing catches ends the process with status 1 and a
  traceback on the error stream.
\<close>

type_synonym path = string

datatype node = Directory | RegularFile "image option"

type_synonym filesystem = "path \<Rightarrow> node option"

record args =
  a_top :: path
  a_side_overlay :: path
  a_side_base :: path
  a_colormap :: path
  a_temperature :: fl
  a_downfall :: fl
  a_out_top :: "path option"
  a_out_side :: "path option"

datatype msg = Printed string | Traceback error

record outcome =
  exit_code :: nat
  stderr :: "msg list"
  files :: filesystem

definition isfile :: "filesystem \<Rightarrow> path \<Rightarrow> bool" where
  "isfile fs p = (case fs p of Some (RegularFile c) \<Rightarrow> True | _ \<Rightarrow> False)"

definition image_open :: "filesystem \<Rightarrow> path \<Rightarrow> error + image" where
  "image_open fs p = (case fs p of
       None \<Rightarrow> Inl FileNotFoundError
     | Some Directory \<Rightarrow> Inl IsADirectoryError
     | Some (RegularFile None) \<Rightarrow> Inl UnidentifiedImageError
     | Some (RegularFile (Some img)) \<Rightarrow> Inr img)"

text \<open>\<^verbatim>\<open>os.makedirs(p, exist_ok=True)\<close>\<close>

definition makedirs :: "filesystem \<Rightarrow> path \<Rightarrow> error + filesystem" where
  "makedirs fs p = (case fs p of
       None \<Rightarrow> Inr (fs(p \<mapsto> Directory))
     | Some Directory \<Rightarrow> Inr fs
     | Some (RegularFile c) \<Rightarrow> Inl FileExistsError)"

text \<open>
  \<^verbatim>\<open>os.path.dirname(p)\<close>: what stands before the last slash, without the slashes
  that end it, unless it is slashes only.
\<close>

definition dirname :: "path \<Rightarrow> path" where
  "dirname p =
     (let head = rev (dropWhile (\<lambda>c. c \<noteq> CHR ''/'') (rev p))
      in if set head \<subseteq> {CHR ''/''} then head else rstrip head ''/'')"

text \<open>
  The directory a file is created in has to be there: the current directory (an empty
  name, or \<^verbatim>\<open>.\<close>), the root, or a directory of the file system.
\<close>

definition parent_node :: "filesystem \<Rightarrow> path \<Rightarrow> node option" where
  "parent_node fs p =
     (let d = dirname p
      in if d = [] \<or> d = ''.'' \<or> set d \<subseteq> {CHR ''/''} then Some Directory else fs d)"

text \<open>
  \<^verbatim>\<open>img.save(p, format="PNG")\<close> opens \<open>p\<close> for writing and writes the image. The
  open fails when the directory of \<open>p\<close> is missing or is a file, and when \<open>p\<close> is a
  directory. Paths are taken as they are written; permissions, symbolic links and
  \<^verbatim>\<open>..\<close> are outside the model.
\<close>

definition save :: "filesystem \<Rightarrow> path \<Rightarrow> image \<Rightarrow> error + filesystem" where
  "save fs p img = (case parent_node fs p of
       None \<Rightarrow> Inl FileNotFoundError
     | Some (RegularFile c) \<Rightarrow> Inl NotADirectoryError
     | Some Directory \<Rightarrow>
         (case fs p of
            Some Directory \<Rightarrow> Inl IsADirectoryError
          | _ \<Rightarrow> Inr (fs(p \<mapsto> RegularFile (Some img)))))"

fun repr_size :: "nat \<times> nat \<Rightarrow> string" where
  "repr_size (w, h) = ''('' @ decimal w @ '', '' @ decimal h @ '')''"

fun repr_rgb :: "int \<times> int \<times> int \<Rightarrow> string" where
  "repr_rgb (r, g, b) = ''('' @ repr_int r @ '', '' @ repr_int g @ '', '' @ repr_int b @ '')''"

text \<open>\<^verbatim>\<open>f"{x:.2f}".rstrip("0").rstrip(".")\<close>\<close>

definition param_str :: "fl \<Rightarrow> string" where
  "param_str x = rstrip (rstrip (format_f 2 x) ''0'') ''.''"

definition suffix :: "args \<Rightarrow> string" where
  "suffix args = param_str (a_temperature args) @ ''_'' @ param_str (a_downfall args)"

text \<open>\<^verbatim>\<open>given or os.path.join("out", name)\<close>: an absent or empty path gives the default.\<close>

definition out_path :: "path option \<Rightarrow> string \<Rightarrow> path" where
  "out_path given name = (case given of
       None \<Rightarrow> ''out/'' @ name
     | Some p \<Rightarrow> if p = [] then ''out/'' @ name else p)"

definition uncaught :: "error \<Rightarrow> filesystem \<Rightarrow> outcome" where
  "uncaught e fs = \<lparr>exit_code = 1, stderr = [Traceback e], files = fs\<rparr>"

definition exit_error :: "string \<Rightarrow> filesystem \<Rightarrow> outcome" where
  "exit_error m fs = \<lparr>exit_code = 1, stderr = [Printed m], files = fs\<rparr>"

text \<open>A step of the driver: an exception goes uncaught, a result goes on.\<close>

fun step :: "error + 'a \<Rightarrow> filesystem \<Rightarrow> ('a \<Rightarrow> outcome) \<Rightarrow> outcome" where
  "step (Inl e) fs k = uncaught e fs"
| "step (Inr x) fs k = k x"

definition summary :: "args \<Rightarrow> int \<times> int \<times> int \<Rightarrow> path \<Rightarrow> path \<Rightarrow> msg list" where
  "summary args biome_rgb out_top out_side =
     [Printed (''Biome RGB: '' @ repr_rgb biome_rgb @ '' (from temp=''
         @ format_f 3 (clamp01 (a_temperature args)) @ '', downfall=''
         @ format_f 3 (clamp01 (a_downfall args)) @ '')''),
      Printed (''Wrote top  -> '' @ out_top),
      Printed (''Wrote side -> '' @ out_side)]"

text \<open>The run after validation: from the output directory to the summary.\<close>

definition process ::
    "(rgba \<Rightarrow> rgba \<Rightarrow> rgba) \<Rightarrow> args \<Rightarrow> int \<times> int \<times> int \<Rightarrow> filesystem \<Rightarrow> outcome" where
  "process over args biome_rgb fs =
     step (makedirs fs ''out'') fs (\<lambda>fs1.
     step (image_open fs1 (a_top args)) fs1 (\<lambda>top_img.
     step (tint_grayscale_rgba top_img biome_rgb) fs1 (\<lambda>top_coloured.
     let out_top = out_path (a_out_top args) (''grass_block_top_'' @ suffix args @ ''.png'') in
     step (save fs1 out_top top_coloured) fs1 (\<lambda>fs2.
     step (image_open fs2 (a_side_overlay args)) fs2 (\<lambda>side_overlay.
     step (tint_grayscale_rgba side_overlay biome_rgb) fs2 (\<lambda>overlay_coloured.
     step (image_open fs2 (a_side_base args)) fs2 (\<lambda>side_base.
     step (composite_overlay_onto_base over side_base overlay_coloured) fs2 (\<lambda>side_coloured.
     let out_side = out_path (a_out_side args) (''grass_block_side_'' @ suffix args @ ''.png'') in
     step (save fs2 out_side side_coloured) fs2 (\<lambda>fs3.
     \<lparr>exit_code = 0, stderr = summary args biome_rgb out_top out_side, files = fs3\<rparr>)))))))))"

definition main :: "(rgba \<Rightarrow> rgba \<Rightarrow> rgba) \<Rightarrow> args \<Rightarrow> filesystem \<Rightarrow> outcome" where
  "main over args fs =
     (case find (\<lambda>path. \<not> isfile fs path)
             [a_top args, a_side_overlay args, a_side_base args, a_colormap args] of
        Some path \<Rightarrow> exit_error (''Error: file not found: '' @ path) fs
      | None \<Rightarrow>
          step (image_open fs (a_colormap args)) fs (\<lambda>img.
          let cmap = ImgRGB (convert_RGB img) in
          if size_of cmap \<noteq> (256, 256)
          then exit_error
                 (''Error: colormap must be 256x256, got '' @ repr_size (size_of cmap)) fs
          else step (sample_biome_color cmap (a_temperature args) (a_downfall args)) fs
                 (\<lambda>biome_rgb. process over args biome_rgb fs)))"

section \<open>Rounding is monotone\<close>

lemma pow2_powi: "pow2 e = 2 powi e"
  by (simp add: pow2_def power_int_def power_one_over inverse_eq_divide)

lemma pow2_pos: "0 < pow2 e"
  by (simp add: pow2_powi)

lemma pow2_add: "pow2 (a + b) = pow2 a * pow2 b"
  by (simp add: pow2_powi power_int_add)

lemma pow2_mono: "a \<le> b \<Longrightarrow> pow2 a \<le> pow2 b"
  by (simp add: pow2_powi power_int_increasing)

lemma pow2_less_cancel: "pow2 a < pow2 b \<Longrightarrow> a < b"
  using pow2_mono [of b a] by (cases "a < b") auto

lemma pow2_nat: "pow2 (int n) = 2 ^ n"
  by (simp add: pow2_def)

lemma rne_of_int: "rne (of_int n) = n"
  by (simp add: rne_def)

lemma rne_cases: "rne x = \<lfloor>x\<rfloor> \<or> rne x = \<lfloor>x\<rfloor> + 1"
  by (simp add: rne_def Let_def)

lemma rne_floor_le: "\<lfloor>x\<rfloor> \<le> rne x"
  using rne_cases [of x] by auto

lemma rne_mono: "x \<le> y \<Longrightarrow> rne x \<le> rne y"
proof -
  assume xy: "x \<le> y"
  then have f: "\<lfloor>x\<rfloor> \<le> \<lfloor>y\<rfloor>" by (rule floor_mono)
  show ?thesis
  proof (cases "\<lfloor>x\<rfloor> = \<lfloor>y\<rfloor>")
    case True
    with xy show ?thesis by (auto simp: rne_def Let_def)
  next
    case False
    with f have "\<lfloor>x\<rfloor> + 1 \<le> \<lfloor>y\<rfloor>" by simp
    also have "\<dots> \<le> rne y" by (rule rne_floor_le)
    finally show ?thesis using rne_cases [of x] by auto
  qed
qed

lemma pow2_of_int: "0 \<le> e \<Longrightarrow> pow2 e = of_int (2 ^ nat e)"
  by (simp add: pow2_def)

lemma bitlen_pow2_bounds:
  assumes "0 < a"
  shows "pow2 (bitlen a - 1) \<le> of_int a" and "of_int a < pow2 (bitlen a)"
proof -
  have la: "1 \<le> bitlen a" using assms by (simp add: bitlen_alt_def)
  have "(2::int) ^ nat (bitlen a - 1) \<le> a" using bitlen_bounds [OF assms] by simp
  then have "(of_int (2 ^ nat (bitlen a - 1)) :: rat) \<le> of_int a" by (simp only: of_int_le_iff)
  then show "pow2 (bitlen a - 1) \<le> of_int a" using la by (simp only: pow2_of_int)
  have "a < (2::int) ^ nat (bitlen a)" using bitlen_bounds [OF assms] by simp
  then have "(of_int a :: rat) < of_int (2 ^ nat (bitlen a))" by (simp only: of_int_less_iff)
  then show "of_int a < pow2 (bitlen a)" using la by (simp only: pow2_of_int)
qed

lemma pow2_neg: "pow2 (- e) = 1 / pow2 e"
  by (simp add: pow2_powi power_int_minus inverse_eq_divide)

lemma ilog2_bounds:
  assumes "0 < x"
  shows "pow2 (ilog2 x) \<le> x \<and> x < pow2 (ilog2 x + 1)"
proof (cases "1 \<le> x")
  case True
  define n where "n = \<lfloor>x\<rfloor>"
  have n: "0 < n" using True by (simp add: n_def)
  have "pow2 (bitlen n - 1) \<le> of_int n" by (rule bitlen_pow2_bounds [OF n])
  also have "\<dots> \<le> x" unfolding n_def by linarith
  finally have lo: "pow2 (bitlen n - 1) \<le> x" .
  have "n + 1 \<le> 2 ^ nat (bitlen n)" using bitlen_bounds [OF n] by simp
  then have "(of_int (n + 1) :: rat) \<le> of_int (2 ^ nat (bitlen n))" by (simp only: of_int_le_iff)
  then have "of_int n + 1 \<le> pow2 (bitlen n)" by (simp add: pow2_of_int bitlen_nonneg)
  moreover have "x < of_int n + 1" unfolding n_def by linarith
  ultimately have up: "x < pow2 (bitlen n)" by simp
  show ?thesis using True lo up by (simp add: ilog2_def n_def)
next
  case False
  define y where "y = 1 / x"
  define m where "m = \<lceil>y\<rceil> - 1"
  have y: "1 < y" using assms False by (simp add: y_def)
  then have m: "0 < m" by (simp add: m_def less_ceiling_iff)
  have my: "of_int m < y" "y \<le> of_int m + 1"
    unfolding m_def by linarith+
  have "pow2 (bitlen m - 1) \<le> of_int m" by (rule bitlen_pow2_bounds [OF m])
  with my(1) have a: "pow2 (bitlen m - 1) < y" by simp
  have "m + 1 \<le> 2 ^ nat (bitlen m)" using bitlen_bounds [OF m] by simp
  then have "(of_int (m + 1) :: rat) \<le> of_int (2 ^ nat (bitlen m))" by (simp only: of_int_le_iff)
  then have "of_int m + 1 \<le> pow2 (bitlen m)" by (simp add: pow2_of_int bitlen_nonneg)
  with my(2) have b: "y \<le> pow2 (bitlen m)" by simp
  have x: "x = 1 / y" by (simp add: y_def)
  have "pow2 (- bitlen m) \<le> x"
    unfolding pow2_neg x using b y pow2_pos [of "bitlen m"] by (simp add: frac_le)
  moreover have "x < pow2 (- bitlen m + 1)"
  proof -
    have "- bitlen m + 1 = - (bitlen m - 1)" by simp
    moreover have "1 / y < 1 / pow2 (bitlen m - 1)"
      using a pow2_pos [of "bitlen m - 1"] by (simp add: frac_less2)
    ultimately show ?thesis by (simp only: pow2_neg x)
  qed
  ultimately show ?thesis using False by (simp add: ilog2_def m_def y_def)
qed

lemma rne_zero: "rne 0 = 0"
  using rne_of_int [of 0] by simp

lemma ilog2_mono:
  assumes "0 < x" and "x \<le> y"
  shows "ilog2 x \<le> ilog2 y"
proof -
  have "pow2 (ilog2 x) \<le> x" using ilog2_bounds [OF assms(1)] by simp
  also note assms(2)
  also have "y < pow2 (ilog2 y + 1)" using ilog2_bounds [of y] assms by simp
  finally have "ilog2 x < ilog2 y + 1" by (rule pow2_less_cancel)
  then show ?thesis by simp
qed

lemma fl_round_expo: "x \<noteq> 0 \<Longrightarrow> fl_round p em x = of_int (rne (x / pow2 (expo p em x))) * pow2 (expo p em x)"
  by (simp add: fl_round_def Let_def)

lemma fl_round_nonneg: "0 \<le> x \<Longrightarrow> 0 \<le> fl_round p em x"
proof (cases "x = 0")
  case True
  then show ?thesis by (simp add: fl_round_def)
next
  case False
  assume "0 \<le> x"
  then have "0 \<le> x / pow2 (expo p em x)" using pow2_pos [of "expo p em x"] by simp
  then have "rne 0 \<le> rne (x / pow2 (expo p em x))" by (rule rne_mono)
  then show ?thesis using False pow2_pos [of "expo p em x"]
    by (simp add: fl_round_expo rne_zero)
qed

lemma fl_round_upper:
  assumes "0 < x"
  shows "fl_round p em x \<le> pow2 (expo p em x + int p)"
proof -
  let ?e = "expo p em x"
  have "x < pow2 (ilog2 x + 1)" using ilog2_bounds [OF assms] by simp
  also have "\<dots> \<le> pow2 (?e + int p)"
    using assms by (intro pow2_mono) (simp add: expo_def)
  also have "\<dots> = pow2 (int p) * pow2 ?e" by (simp add: pow2_add)
  finally have "x / pow2 ?e \<le> of_int (2 ^ p)"
    using pow2_pos [of ?e] by (simp add: pos_divide_le_eq pow2_nat)
  then have "rne (x / pow2 ?e) \<le> rne (of_int (2 ^ p))" by (rule rne_mono)
  then have "rne (x / pow2 ?e) \<le> 2 ^ p" by (simp only: rne_of_int)
  then have "(of_int (rne (x / pow2 ?e)) :: rat) \<le> of_int (2 ^ p)" by (simp only: of_int_le_iff)
  then have "of_int (rne (x / pow2 ?e)) * pow2 ?e \<le> pow2 (int p) * pow2 ?e"
    using pow2_pos [of ?e] by (simp add: pow2_nat)
  then show ?thesis using assms by (simp add: fl_round_expo pow2_add mult.commute)
qed

lemma fl_round_lower:
  assumes "0 < x" and "0 < p" and "em < expo p em x"
  shows "pow2 (expo p em x + int p - 1) \<le> fl_round p em x"
proof -
  let ?e = "expo p em x"
  have e: "?e = ilog2 x - int p + 1" using assms by (simp add: expo_def)
  have i: "int (p - 1) + ?e = ilog2 x" and j: "?e + int p - 1 = ilog2 x"
    using assms(2) by (simp_all add: e of_nat_diff)
  have "pow2 (int (p - 1)) * pow2 ?e = pow2 (ilog2 x)"
    by (simp only: i flip: pow2_add)
  also have "\<dots> \<le> x" using ilog2_bounds [OF assms(1)] by simp
  finally have "of_int (2 ^ (p - 1)) \<le> x / pow2 ?e"
    using pow2_pos [of ?e] by (simp add: pos_le_divide_eq pow2_nat)
  then have "rne (of_int (2 ^ (p - 1))) \<le> rne (x / pow2 ?e)" by (rule rne_mono)
  then have "2 ^ (p - 1) \<le> rne (x / pow2 ?e)" by (simp only: rne_of_int)
  then have "(of_int (2 ^ (p - 1)) :: rat) \<le> of_int (rne (x / pow2 ?e))" by (simp only: of_int_le_iff)
  then have "pow2 (int (p - 1)) * pow2 ?e \<le> of_int (rne (x / pow2 ?e)) * pow2 ?e"
    using pow2_pos [of ?e] by (simp add: pow2_nat)
  moreover have "pow2 (int (p - 1)) * pow2 ?e = pow2 (?e + int p - 1)"
    by (simp only: i j flip: pow2_add)
  ultimately show ?thesis using assms(1) by (simp add: fl_round_expo)
qed

lemma fl_round_mono_pos:
  assumes "0 < p" and "0 < x" and "x \<le> y"
  shows "fl_round p em x \<le> fl_round p em y"
proof -
  have y: "0 < y" using assms by simp
  have le: "expo p em x \<le> expo p em y"
    using ilog2_mono [of x y] assms y by (simp add: expo_def)
  show ?thesis
  proof (cases "expo p em x = expo p em y")
    case True
    have "x / pow2 (expo p em y) \<le> y / pow2 (expo p em y)"
      using assms(3) pow2_pos [of "expo p em y"] by (simp add: divide_right_mono)
    then have "rne (x / pow2 (expo p em y)) \<le> rne (y / pow2 (expo p em y))" by (rule rne_mono)
    then show ?thesis using True assms(2) y pow2_pos [of "expo p em y"]
      by (simp add: fl_round_expo)
  next
    case False
    with le have lt: "expo p em x < expo p em y" by simp
    have "em \<le> expo p em x" by (simp add: expo_def)
    with lt have em: "em < expo p em y" by simp
    have "fl_round p em x \<le> pow2 (expo p em x + int p)" by (rule fl_round_upper [OF assms(2)])
    also have "\<dots> \<le> pow2 (expo p em y + int p - 1)" using lt by (intro pow2_mono) simp
    also have "\<dots> \<le> fl_round p em y" by (rule fl_round_lower [OF y assms(1) em])
    finally show ?thesis .
  qed
qed

lemma fl_round_mono:
  assumes "0 < p" and "0 \<le> x" and "x \<le> y"
  shows "fl_round p em x \<le> fl_round p em y"
proof (cases "x = 0")
  case True
  then show ?thesis using fl_round_nonneg [of y p em] assms by (simp add: fl_round_def)
next
  case False
  then show ?thesis using assms by (intro fl_round_mono_pos) simp_all
qed

section \<open>Evaluating floating-point operations\<close>

text \<open>
  The simplifier computes a rounding on numerals from the definitions, given how to
  take the floor of a fraction and the bit length of a numeral.
\<close>

lemma floor_rat_numeral [simp]: "\<lfloor>numeral a / numeral b :: rat\<rfloor> = numeral a div numeral b"
  by (metis floor_divide_of_int_eq of_int_numeral)

lemma ceiling_rat_numeral [simp]: "\<lceil>numeral a / numeral b :: rat\<rceil> = - (- numeral a div numeral b)"
  using ceiling_divide_eq_div [of "numeral a" "numeral b", where 'a = rat] by simp

lemma floor_minus_rat_numeral [simp]:
  "\<lfloor>- (numeral a / numeral b) :: rat\<rfloor> = - numeral a div numeral b"
  by (metis divide_minus_left floor_divide_of_int_eq of_int_neg_numeral of_int_numeral)

lemma ceiling_minus_rat_numeral [simp]:
  "\<lceil>- (numeral a / numeral b) :: rat\<rceil> = - (numeral a div numeral b)"
  using ceiling_divide_eq_div [of "- numeral a" "numeral b", where 'a = rat] by simp

lemma bitlen_One [simp]: "bitlen 1 = 1"
  by (simp add: bitlen_alt_def)

lemma bitlen_Bit0 [simp]: "bitlen (numeral (Num.Bit0 k)) = bitlen (numeral k) + 1"
  by (subst compute_bitlen) simp

lemma bitlen_Bit1 [simp]: "bitlen (numeral (Num.Bit1 k)) = bitlen (numeral k) + 1"
  by (subst compute_bitlen) simp

text \<open>The operations on finite operands: the exact result, rounded.\<close>

lemma fl_of_rat_0: "fl_of_rat F 0 = Fin 0"
  using pow2_pos [of "emax F + 1"] by (simp add: fl_of_rat_def fl_round_def not_le)

lemma fl_add_Fin: "fl_add F (Fin a) (Fin b) = fl_of_rat F (a + b)"
  by (simp add: fl_add_def is_inf_def)

lemma fl_sub_Fin: "fl_sub F (Fin a) (Fin b) = fl_of_rat F (a - b)"
  by (simp add: fl_sub_def fl_add_def is_inf_def)

lemma fl_mul_Fin: "0 \<le> a \<Longrightarrow> 0 \<le> b \<Longrightarrow> fl_mul F (Fin a) (Fin b) = fl_of_rat F (a * b)"
  by (auto simp: fl_mul_def is_inf_def is_zero_def zero_signed_def fl_of_rat_0)

lemma fl_div_Fin: "0 \<le> a \<Longrightarrow> 0 < b \<Longrightarrow> fl_div F (Fin a) (Fin b) = fl_of_rat F (a / b)"
  by (auto simp: fl_div_def is_inf_def is_zero_def zero_signed_def fl_of_rat_0)

lemma fl_lt_Fin: "fl_lt (Fin a) (Fin b) = (a < b)"
  by (simp add: fl_lt_def)

lemmas fl_eval = fl_of_rat_def fl_round_def expo_def ilog2_def rne_def pow2_def Let_def
  binary32_def binary64_def py_float_def f32_lit_def inf_signed_def
  fl_add_Fin fl_sub_Fin fl_mul_Fin fl_div_Fin fl_lt_Fin

lemma py_float_0: "py_float 0 = Fin 0"
  by (simp add: py_float_def fl_of_rat_0)

lemma py_float_1: "py_float 1 = Fin 1"
  by (simp add: fl_eval)

lemma py_float_255: "py_float 255 = Fin 255"
  by (simp add: fl_eval)

section \<open>The sampler clamps its parameters\<close>

lemma clamp01_cases:
  "clamp01 x = (case x of Fin a \<Rightarrow> Fin (max 0 (min 1 a)) | NegZero \<Rightarrow> Fin 0
     | PosInf \<Rightarrow> Fin 1 | NegInf \<Rightarrow> Fin 0 | NaN \<Rightarrow> Fin 1)"
  by (cases x) (auto simp: clamp01_def py_min_def py_max_def py_float_0 py_float_1 fl_lt_def)

lemma clamp01_range: "\<exists>r. clamp01 x = Fin r \<and> 0 \<le> r \<and> r \<le> 1"
  by (cases x) (auto simp: clamp01_cases)

lemma clamp01_idem: "clamp01 (clamp01 x) = clamp01 x"
  by (cases x) (auto simp: clamp01_cases)

lemma pixel_coords_clamp:
  "pixel_coords (clamp01 t) (clamp01 d) = pixel_coords t d"
  by (simp add: pixel_coords_def clamp01_idem)

lemma sample_clamp:
  "sample_biome_color cmap (clamp01 t) (clamp01 d) = sample_biome_color cmap t d"
  by (simp add: sample_biome_color_def pixel_coords_clamp)

text \<open>
  Claim C4: the sampler clamps temperature and downfall to \<open>[0, 1]\<close> before use: a value
  below 0 becomes 0, a value above 1 becomes 1, a value between them stays (and
  Python's \<^verbatim>\<open>min\<close> and \<^verbatim>\<open>max\<close> send NaN to 1). So sampling with any inputs equals
  sampling with the clamped inputs; in particular \<^verbatim>\<open>sample(cmap, 1.5, -0.3)\<close> returns
  what \<^verbatim>\<open>sample(cmap, 1.0, 0.0)\<close> returns.
\<close>

theorem sampler_clamps:
  "clamp01 (Fin a) = Fin (max 0 (min 1 a))
   \<and> clamp01 NegZero = Fin 0 \<and> clamp01 NegInf = Fin 0
   \<and> clamp01 PosInf = Fin 1 \<and> clamp01 NaN = Fin 1
   \<and> (\<exists>r. clamp01 temperature = Fin r \<and> 0 \<le> r \<and> r \<le> 1)
   \<and> (\<exists>r. clamp01 downfall = Fin r \<and> 0 \<le> r \<and> r \<le> 1)
   \<and> sample_biome_color cmap temperature downfall
       = sample_biome_color cmap (clamp01 temperature) (clamp01 downfall)
   \<and> sample_biome_color cmap (Fin a) (Fin b)
       = sample_biome_color cmap (Fin (max 0 (min 1 a))) (Fin (max 0 (min 1 b)))
   \<and> py_float (3 / 2) = Fin (3 / 2) \<and> fl_lt (py_float (- 3 / 10)) (Fin 0)
   \<and> clamp01 (py_float (3 / 2)) = py_float 1
   \<and> clamp01 (py_float (- 3 / 10)) = py_float 0
   \<and> sample_biome_color cmap (py_float (3 / 2)) (py_float (- 3 / 10))
       = sample_biome_color cmap (py_float 1) (py_float 0)"
proof -
  have hi: "py_float (3 / 2) = Fin (3 / 2)" by (simp add: fl_eval)
  have lo: "py_float (- 3 / 10) = Fin (- 5404319552844595 / 18014398509481984)"
    by (simp add: fl_eval)
  have a: "clamp01 (py_float (3 / 2)) = py_float 1"
    by (simp only: hi) (simp add: py_float_1 clamp01_cases)
  have b: "clamp01 (py_float (- 3 / 10)) = py_float 0"
    by (simp only: lo) (simp add: py_float_0 clamp01_cases)
  have neg: "fl_lt (py_float (- 3 / 10)) (Fin 0)"
    by (simp only: lo) (simp add: fl_lt_Fin)
  have "sample_biome_color cmap (py_float (3 / 2)) (py_float (- 3 / 10))
      = sample_biome_color cmap (clamp01 (py_float (3 / 2))) (clamp01 (py_float (- 3 / 10)))"
    by (simp only: sample_clamp)
  then have ex: "sample_biome_color cmap (py_float (3 / 2)) (py_float (- 3 / 10))
      = sample_biome_color cmap (py_float 1) (py_float 0)"
    by (simp only: a b)
  have "sample_biome_color cmap (Fin a) (Fin b)
      = sample_biome_color cmap (clamp01 (Fin a)) (clamp01 (Fin b))"
    by (simp only: sample_clamp)
  then have fin: "sample_biome_color cmap (Fin a) (Fin b)
      = sample_biome_color cmap (Fin (max 0 (min 1 a))) (Fin (max 0 (min 1 b)))"
    by (simp add: clamp01_cases)
  have c: "clamp01 (Fin a) = Fin (max 0 (min 1 a))" "clamp01 NegZero = Fin 0"
    "clamp01 NegInf = Fin 0" "clamp01 PosInf = Fin 1" "clamp01 NaN = Fin 1"
    by (simp_all add: clamp01_cases)
  have s: "sample_biome_color cmap temperature downfall
       = sample_biome_color cmap (clamp01 temperature) (clamp01 downfall)"
    by (simp only: sample_clamp)
  from c clamp01_range [of temperature] clamp01_range [of downfall] s fin hi neg a b ex
  show ?thesis by (intro conjI)
qed

section \<open>Validation comes first\<close>

lemma size_of_convert_RGB: "size_of (ImgRGB (convert_RGB img)) = size_of img"
  by (cases img) (simp_all add: map_raster_def)

lemma main_validated:
  assumes "find (\<lambda>path. \<not> isfile fs path)
      [a_top args, a_side_overlay args, a_side_base args, a_colormap args] = None"
    and "image_open fs (a_colormap args) = Inr img"
  shows "main over args fs =
    (if size_of img \<noteq> (256, 256)
     then exit_error (''Error: colormap must be 256x256, got '' @ repr_size (size_of img)) fs
     else step (sample_biome_color (ImgRGB (convert_RGB img)) (a_temperature args) (a_downfall args))
            fs (\<lambda>biome_rgb. process over args biome_rgb fs))"
  unfolding main_def assms Let_def size_of_convert_RGB by simp

lemma find_isfile_None:
  "find (\<lambda>path. \<not> isfile fs path) ps = None \<longleftrightarrow> (\<forall>p \<in> set ps. isfile fs p)"
  by (auto simp: find_None_iff)

text \<open>
  Claim C1: when one of the four input paths names no existing file, or the colormap
  file does not decode to a 256 by 256 image, the process exits with status 1, has
  written one message to the error stream, and leaves the file system as it found it:
  no output file, and no output directory either.
\<close>

theorem validation_first:
  assumes "\<not> isfile fs (a_top args) \<or> \<not> isfile fs (a_side_overlay args)
     \<or> \<not> isfile fs (a_side_base args) \<or> \<not> isfile fs (a_colormap args)
     \<or> (\<forall>img. fs (a_colormap args) = Some (RegularFile (Some img)) \<longrightarrow> size_of img \<noteq> (256, 256))"
  shows "exit_code (main over args fs) = 1 \<and> files (main over args fs) = fs
     \<and> (\<exists>m. stderr (main over args fs) = [m])"
proof (cases "find (\<lambda>path. \<not> isfile fs path)
    [a_top args, a_side_overlay args, a_side_base args, a_colormap args]")
  case (Some p)
  then show ?thesis by (simp add: main_def exit_error_def)
next
  case None
  then have all: "isfile fs (a_top args)" "isfile fs (a_side_overlay args)"
    "isfile fs (a_side_base args)" "isfile fs (a_colormap args)"
    unfolding find_isfile_None by simp_all
  with assms have sz: "\<forall>img. fs (a_colormap args) = Some (RegularFile (Some img)) \<longrightarrow> size_of img \<noteq> (256, 256)"
    by blast
  show ?thesis
  proof (cases "image_open fs (a_colormap args)")
    case (Inl e)
    with None show ?thesis by (simp add: main_def uncaught_def)
  next
    case (Inr img)
    then have "fs (a_colormap args) = Some (RegularFile (Some img))"
      by (auto simp: image_open_def split: option.splits node.splits)
    with sz have "size_of img \<noteq> (256, 256)" by blast
    then show ?thesis
      by (simp add: main_validated [OF None Inr] exit_error_def)
  qed
qed

theorem validation_first_witness:
  "\<not> isfile Map.empty ''grass_colourmap.png''
   \<and> exit_code (main (\<lambda>p q. q)
        \<lparr>a_top = ''grass_block_top_512.png'',
         a_side_overlay = ''grass_block_side_overlay_512.png'',
         a_side_base = ''grass_block_side_512.png'', a_colormap = ''grass_colourmap.png'',
         a_temperature = Fin (1 / 2), a_downfall = Fin 1,
         a_out_top = None, a_out_side = None\<rparr> Map.empty) = 1"
  using validation_first [where fs = Map.empty and over = "\<lambda>p q. q"
      and args = "\<lparr>a_top = ''grass_block_top_512.png'',
         a_side_overlay = ''grass_block_side_overlay_512.png'',
         a_side_base = ''grass_block_side_512.png'', a_colormap = ''grass_colourmap.png'',
         a_temperature = Fin (1 / 2), a_downfall = Fin 1,
         a_out_top = None, a_out_side = None\<rparr>"]
  by (simp add: isfile_def)

section \<open>The sampler stays inside the colormap\<close>

lemma fl_of_rat_bounded:
  assumes p: "0 < prec F" and x: "0 \<le> x" "x \<le> u" and u: "fl_of_rat F u = Fin u'"
  shows "\<exists>r. fl_of_rat F x = Fin r \<and> 0 \<le> r \<and> r \<le> u'"
proof -
  let ?r = "fl_round (prec F) (emin F) x"
  let ?ru = "fl_round (prec F) (emin F) u"
  have r0: "0 \<le> ?r" using x(1) by (rule fl_round_nonneg)
  have ru: "?r \<le> ?ru" using p x by (rule fl_round_mono)
  from u have fin: "\<not> pow2 (emax F + 1) \<le> \<bar>?ru\<bar>" and u': "u' = ?ru"
    by (auto simp: fl_of_rat_def Let_def inf_signed_def split: if_splits)
  from r0 ru fin have "\<not> pow2 (emax F + 1) \<le> \<bar>?r\<bar>" by simp
  then have "fl_of_rat F x = Fin ?r" using x(1) by (simp add: fl_of_rat_def Let_def)
  with r0 ru u' show ?thesis by simp
qed

lemma fl_of_rat_Fin_eq: "fl_of_rat F x = Fin r \<Longrightarrow> r = fl_round (prec F) (emin F) x"
  by (auto simp: fl_of_rat_def Let_def inf_signed_def split: if_splits)

lemma fl_of_rat_mono:
  assumes "0 < prec F" "0 \<le> x" "x \<le> y" "fl_of_rat F x = Fin rx" "fl_of_rat F y = Fin ry"
  shows "rx \<le> ry"
  using fl_round_mono [OF assms(1-3)] fl_of_rat_Fin_eq [OF assms(4)] fl_of_rat_Fin_eq [OF assms(5)]
  by simp

lemma prec64: "0 < prec binary64" by (simp add: binary64_def)
lemma prec32: "0 < prec binary32" by (simp add: binary32_def)

lemma f64_255: "fl_of_rat binary64 255 = Fin 255"
  by (simp add: fl_eval)

lemma f64_1: "fl_of_rat binary64 1 = Fin 1"
  by (simp add: fl_eval)

lemma f64_0: "fl_of_rat binary64 0 = Fin 0"
  by (rule fl_of_rat_0)

lemma rne_range: "0 \<le> w \<Longrightarrow> w \<le> of_int n \<Longrightarrow> 0 \<le> rne w \<and> rne w \<le> n"
  using rne_mono [of 0 w] rne_mono [of w "of_int n"] by (simp add: rne_zero rne_of_int)

lemma img_coord_unit:
  assumes "0 \<le> a" "a \<le> 1"
  shows "\<exists>v w. fl_of_rat binary64 (a * 255) = Fin v \<and> fl_of_rat binary64 (255 - v) = Fin w
     \<and> img_coord (Fin a) = Inr (rne w) \<and> 0 \<le> rne w \<and> rne w \<le> 255 \<and> 0 \<le> v \<and> v \<le> 255"
proof -
  have "0 \<le> a * 255" "a * 255 \<le> 255" using assms by simp_all
  from fl_of_rat_bounded [OF prec64 this f64_255]
  obtain v where v: "fl_of_rat binary64 (a * 255) = Fin v" "0 \<le> v" "v \<le> 255" by blast
  then have "0 \<le> 255 - v" "255 - v \<le> 255" by simp_all
  from fl_of_rat_bounded [OF prec64 this f64_255]
  obtain w where w: "fl_of_rat binary64 (255 - v) = Fin w" "0 \<le> w" "w \<le> 255" by blast
  have "img_coord (Fin a) = Inr (rne w)"
    using assms(1) by (simp add: img_coord_def py_float_255 fl_mul_Fin fl_sub_Fin v w)
  moreover have "0 \<le> rne w \<and> rne w \<le> 255" using rne_range [of w 255] w by simp
  ultimately show ?thesis using v w by blast
qed

lemma d_proj_unit:
  assumes "0 \<le> d" "d \<le> 1" "0 \<le> t" "t \<le> 1"
  shows "\<exists>e. fl_mul binary64 (Fin d) (Fin t) = Fin e \<and> 0 \<le> e \<and> e \<le> 1"
proof -
  have "0 \<le> d * t" "d * t \<le> 1" using assms by (simp_all add: mult_le_one)
  from fl_of_rat_bounded [OF prec64 this f64_1] show ?thesis
    using assms by (simp add: fl_mul_Fin)
qed

lemma d_proj_le:
  assumes "0 \<le> d" "d \<le> 1" "0 \<le> t" "representable binary64 t"
  shows "\<exists>e. fl_mul binary64 (Fin d) (Fin t) = Fin e \<and> 0 \<le> e \<and> e \<le> t"
proof -
  have "0 \<le> d * t" "d * t \<le> t" using assms by (simp_all add: mult_left_le_one_le)
  from fl_of_rat_bounded [OF prec64 this] assms show ?thesis
    by (simp add: representable_def fl_mul_Fin)
qed

text \<open>A smaller value lies further right or further down in the colormap.\<close>

lemma img_coord_antimono:
  assumes "0 \<le> e" "e \<le> t" "t \<le> 1" "img_coord (Fin t) = Inr x" "img_coord (Fin e) = Inr y"
  shows "x \<le> y"
proof -
  have e1: "e \<le> 1" using assms by simp
  have t0: "0 \<le> t" using assms by simp
  obtain v w where v: "fl_of_rat binary64 (t * 255) = Fin v" "fl_of_rat binary64 (255 - v) = Fin w"
    "img_coord (Fin t) = Inr (rne w)" "0 \<le> v" "v \<le> 255"
    using img_coord_unit [OF t0 assms(3)] by blast
  obtain v' w' where v': "fl_of_rat binary64 (e * 255) = Fin v'"
    "fl_of_rat binary64 (255 - v') = Fin w'"
    "img_coord (Fin e) = Inr (rne w')" "0 \<le> v'" "v' \<le> 255"
    using img_coord_unit [OF assms(1) e1] by blast
  have "0 \<le> e * 255" "e * 255 \<le> t * 255" using assms by simp_all
  from fl_of_rat_mono [OF prec64 this v'(1) v(1)] have "v' \<le> v" .
  then have "0 \<le> 255 - v" "255 - v \<le> 255 - v'" using v(5) by simp_all
  from fl_of_rat_mono [OF prec64 this v(2) v'(2)] have "w \<le> w'" .
  then have "rne w \<le> rne w'" by (rule rne_mono)
  then show ?thesis using assms(4,5) v(3) v'(3) by simp
qed

lemma np_index_in: "0 \<le> i \<Longrightarrow> i < int n \<Longrightarrow> np_index i n = Some (nat i)"
  by (simp add: np_index_def)

lemma getitem_in:
  assumes "0 \<le> y" "y < int (height arr)" "0 \<le> x" "x < int (width arr)"
  shows "getitem arr y x = Inr (pixels arr ! (nat y * width arr + nat x))"
  using assms by (simp add: getitem_def np_index_in)

lemma index_in_raster:
  assumes "wf_raster arr" "0 \<le> y" "y < int (height arr)" "0 \<le> x" "x < int (width arr)"
  shows "nat y * width arr + nat x < length (pixels arr)"
proof -
  have "nat y * width arr + nat x < nat y * width arr + width arr" using assms by simp
  also have "\<dots> = (nat y + 1) * width arr" by simp
  also have "\<dots> \<le> height arr * width arr" using assms by (intro mult_right_mono) simp_all
  finally show ?thesis using assms(1) by (simp add: wf_raster_def mult.commute)
qed

lemma wf_convert_RGB: "wf_image img \<Longrightarrow> wf_raster (convert_RGB img)"
  by (cases img) (simp_all add: wf_raster_def map_raster_def)

lemma size_convert_RGB:
  "size_of img = (w, h) \<Longrightarrow> width (convert_RGB img) = w \<and> height (convert_RGB img) = h"
  by (cases img) (auto simp: map_raster_def)

lemma clamp01_Fin:
  obtains t where "clamp01 x = Fin t" "0 \<le> t" "t \<le> 1"
  using clamp01_range [of x] by blast

lemma pixel_coords_ok:
  obtains t d e x y where
    "clamp01 temperature = Fin t" "clamp01 downfall = Fin d"
    "fl_mul binary64 (Fin d) (Fin t) = Fin e"
    "img_coord (Fin t) = Inr x" "img_coord (Fin e) = Inr y"
    "0 \<le> x" "x \<le> 255" "0 \<le> y" "y \<le> 255"
    "pixel_coords temperature downfall = Inr (x, y)"
proof -
  obtain t where t: "clamp01 temperature = Fin t" "0 \<le> t" "t \<le> 1" by (rule clamp01_Fin)
  obtain d where d: "clamp01 downfall = Fin d" "0 \<le> d" "d \<le> 1" by (rule clamp01_Fin)
  obtain e where e: "fl_mul binary64 (Fin d) (Fin t) = Fin e" "0 \<le> e" "e \<le> 1"
    using d_proj_unit [OF d(2,3) t(2,3)] by blast
  obtain x where x: "img_coord (Fin t) = Inr x" "0 \<le> x" "x \<le> 255"
    using img_coord_unit [OF t(2,3)] by blast
  obtain y where y: "img_coord (Fin e) = Inr y" "0 \<le> y" "y \<le> 255"
    using img_coord_unit [OF e(2,3)] by blast
  have "pixel_coords temperature downfall = Inr (x, y)"
    using x y by (simp add: pixel_coords_def t d e(1))
  with t d e x y that show ?thesis by blast
qed

lemma sample_at:
  assumes "wf_image cmap" and "size_of cmap = (256, 256)"
    and xy: "pixel_coords temperature downfall = Inr (x, y)"
      "0 \<le> x" "x \<le> 255" "0 \<le> y" "y \<le> 255"
  shows "sample_biome_color cmap temperature downfall
      = Inr (int_tuple (pixels (convert_RGB cmap) ! (nat y * 256 + nat x)))"
    and "nat y * 256 + nat x < length (pixels (convert_RGB cmap))"
proof -
  let ?arr = "convert_RGB cmap"
  have sz: "width ?arr = 256" "height ?arr = 256"
    using size_convert_RGB [OF assms(2)] by simp_all
  have wf: "wf_raster ?arr" using assms(1) by (rule wf_convert_RGB)
  have in_y: "y < int (height ?arr)" and in_x: "x < int (width ?arr)"
    using xy sz by simp_all
  show "nat y * 256 + nat x < length (pixels ?arr)"
    using index_in_raster [OF wf xy(4) in_y xy(2) in_x] sz by simp
  have "getitem ?arr y x = Inr (pixels ?arr ! (nat y * 256 + nat x))"
    using getitem_in [OF xy(4) in_y xy(2) in_x] sz by simp
  then show "sample_biome_color cmap temperature downfall
      = Inr (int_tuple (pixels ?arr ! (nat y * 256 + nat x)))"
    by (simp add: sample_biome_color_def xy(1))
qed

lemma int_tuple_range:
  obtains r g b where "int_tuple p = (r, g, b)"
    "0 \<le> r" "r \<le> 255" "0 \<le> g" "g \<le> 255" "0 \<le> b" "b \<le> 255"
proof (cases p)
  case (fields r g b)
  have "uint r \<le> 255" "uint g \<le> 255" "uint b \<le> 255"
    using uint_bounded [of r] uint_bounded [of g] uint_bounded [of b] by simp_all
  with fields that [of "uint r" "uint g" "uint b"] show ?thesis by simp
qed

text \<open>
  Claim C9: for every 256 by 256 colormap and all inputs, also NaN, the infinities and
  values far outside \<open>[0, 1]\<close>, the coordinates computed by the sampler lie in
  \<open>[0, 255]\<close>, the lookup is inside the colormap, and the sampler returns a colour.
\<close>

theorem sampler_in_bounds:
  assumes "wf_image cmap" and "size_of cmap = (256, 256)"
  shows "\<exists>x y. pixel_coords temperature downfall = Inr (x, y)
     \<and> 0 \<le> x \<and> x \<le> 255 \<and> 0 \<le> y \<and> y \<le> 255
     \<and> nat y * 256 + nat x < length (pixels (convert_RGB cmap))
     \<and> (\<exists>r g b. sample_biome_color cmap temperature downfall = Inr (r, g, b)
          \<and> 0 \<le> r \<and> r \<le> 255 \<and> 0 \<le> g \<and> g \<le> 255 \<and> 0 \<le> b \<and> b \<le> 255)"
proof -
  obtain x y where xy: "pixel_coords temperature downfall = Inr (x, y)"
    "0 \<le> x" "x \<le> 255" "0 \<le> y" "y \<le> 255"
    by (rule pixel_coords_ok [of temperature downfall])
  note at = sample_at [OF assms xy]
  obtain r g b where "int_tuple (pixels (convert_RGB cmap) ! (nat y * 256 + nat x)) = (r, g, b)"
    "0 \<le> r" "r \<le> 255" "0 \<le> g" "g \<le> 255" "0 \<le> b" "b \<le> 255"
    by (rule int_tuple_range)
  with at xy show ?thesis by simp
qed

theorem sampler_in_bounds_witness:
  "wf_image (ImgRGB \<lparr>width = 256, height = 256, pixels = replicate 65536 (1, 2, 3)\<rparr>)
   \<and> (\<exists>x y. pixel_coords NaN (Fin (- 7)) = Inr (x, y)
     \<and> 0 \<le> x \<and> x \<le> 255 \<and> 0 \<le> y \<and> y \<le> 255)"
  using sampler_in_bounds [of "ImgRGB \<lparr>width = 256, height = 256, pixels = replicate 65536 (1, 2, 3)\<rparr>"
      NaN "Fin (- 7)"]
  by (simp add: wf_raster_def) blast


lemma py_float_half: "py_float (1 / 2) = Fin (1 / 2)"
  by (simp add: fl_eval)

lemma clamp01_half_one: "clamp01 (Fin (1 / 2)) = Fin (1 / 2)" "clamp01 (Fin 1) = Fin 1"
  by (simp_all add: clamp01_cases)

lemma half_one_coords: "pixel_coords (py_float (1 / 2)) (py_float 1) = Inr (128, 128)"
proof -
  have m: "fl_mul binary64 (Fin 1) (Fin (1 / 2)) = Fin (1 / 2)" by (simp add: fl_eval)
  have i: "img_coord (Fin (1 / 2)) = Inr 128"
    by (simp add: img_coord_def py_float_255 fl_eval)
  show ?thesis
    unfolding pixel_coords_def py_float_half py_float_1 clamp01_half_one Let_def m i by simp
qed



text \<open>
  Claim C8: for temperature and downfall in \<open>[0, 1]\<close> the sampler computes the
  effective downfall \<open>downfall * temperature\<close>, and it is at most the temperature (a
  float, that is, a value of binary64); the row of the colormap comes from it, so the
  pixel read lies on or below the diagonal: the column is at most the row.
\<close>

theorem triangle_projection:
  assumes "representable binary64 t" and "0 \<le> t" "t \<le> 1" and "0 \<le> d" "d \<le> 1"
  shows "clamp01 (Fin t) = Fin t \<and> clamp01 (Fin d) = Fin d
    \<and> (\<exists>e x y. fl_mul binary64 (Fin d) (Fin t) = Fin e \<and> 0 \<le> e \<and> e \<le> t
         \<and> img_coord (Fin t) = Inr x \<and> img_coord (Fin e) = Inr y
         \<and> pixel_coords (Fin t) (Fin d) = Inr (x, y) \<and> x \<le> y)"
proof -
  have c: "clamp01 (Fin t) = Fin t" "clamp01 (Fin d) = Fin d"
    using assms by (simp_all add: clamp01_cases)
  obtain e where e: "fl_mul binary64 (Fin d) (Fin t) = Fin e" "0 \<le> e" "e \<le> t"
    using d_proj_le [OF assms(4,5,2,1)] by blast
  have e1: "e \<le> 1" using e(3) assms(3) by simp
  obtain x where x: "img_coord (Fin t) = Inr x" "0 \<le> x" "x \<le> 255"
    using img_coord_unit [OF assms(2,3)] by blast
  obtain y where y: "img_coord (Fin e) = Inr y" "0 \<le> y" "y \<le> 255"
    using img_coord_unit [OF e(2) e1] by blast
  have xy: "x \<le> y" by (rule img_coord_antimono [OF e(2,3) assms(3) x(1) y(1)])
  have "pixel_coords (Fin t) (Fin d) = Inr (x, y)"
    using x y by (simp add: pixel_coords_def c e(1))
  with c e x(1) y(1) xy show ?thesis by blast
qed

theorem triangle_projection_witness:
  "representable binary64 (1 / 2)
   \<and> (\<exists>e x y. fl_mul binary64 (Fin 1) (Fin (1 / 2)) = Fin e \<and> 0 \<le> e \<and> e \<le> 1 / 2
        \<and> pixel_coords (Fin (1 / 2)) (Fin 1) = Inr (x, y) \<and> x \<le> y)"
proof -
  have r: "representable binary64 (1 / 2)" by (simp add: representable_def fl_eval)
  have "(0::rat) \<le> 1 / 2" "(1 / 2 :: rat) \<le> 1" "(0::rat) \<le> 1" "(1::rat) \<le> 1"
    by simp_all
  from triangle_projection [OF r this] r show ?thesis by blast
qed

section \<open>The tinter darkens toward the tint\<close>

declare lum.simps [simp del]

lemma f32_255: "fl_of_rat binary32 255 = Fin 255"
  by (simp add: fl_eval)

lemma f32_1: "fl_of_rat binary32 1 = Fin 1"
  by (simp add: fl_eval)

lemma f32_lit_255: "f32_lit 255 = Fin 255"
  by (simp add: fl_eval)

lemma f32_lit_299: "f32_lit (299 / 1000) = Fin (10032775 / 33554432)"
  by (simp add: fl_eval)

lemma f32_lit_587: "f32_lit (587 / 1000) = Fin (4924113 / 8388608)"
  by (simp add: fl_eval)

lemma f32_lit_114: "f32_lit (114 / 1000) = Fin (15300821 / 134217728)"
  by (simp add: fl_eval)

lemma f32_red: "fl_of_rat binary32 (10032775 / 33554432 * 255) = Fin (624599 / 8192)"
  by (simp add: fl_eval)

lemma f32_green: "fl_of_rat binary32 (4924113 / 8388608 * 255) = Fin (2452439 / 16384)"
  by (simp add: fl_eval)

lemma f32_blue: "fl_of_rat binary32 (15300821 / 134217728 * 255) = Fin (3810263 / 131072)"
  by (simp add: fl_eval)

lemma f32_red_green: "fl_of_rat binary32 (624599 / 8192 + 2452439 / 16384) = Fin (3701637 / 16384)"
  by (simp add: fl_eval)

lemma f32_white: "fl_of_rat binary32 (3701637 / 16384 + 3810263 / 131072) = Fin 255"
  by (simp add: fl_eval)

lemma astype_float32_range:
  obtains v where "astype_float32 b = Fin v" "0 \<le> v" "v \<le> 255"
proof -
  have "unat b \<le> 255" using unsigned_less [of b, where 'a = nat] by simp
  then have "(of_nat (unat b) :: rat) \<le> of_nat 255" by (rule of_nat_mono)
  then have le: "(of_nat (unat b) :: rat) \<le> 255" by (simp only: of_nat_numeral)
  have ge: "(0::rat) \<le> of_nat (unat b)" by (rule of_nat_0_le_iff)
  from fl_of_rat_bounded [OF prec32 ge le f32_255] that show ?thesis
    unfolding astype_float32_def by blast
qed

lemma lum_range:
  obtains l where "lum p = Fin l" "0 \<le> l" "l \<le> 255"
proof -
  obtain r g b a where p: "p = (r, g, b, a)" by (cases p)
  obtain vr where vr: "astype_float32 r = Fin vr" "0 \<le> vr" "vr \<le> 255"
    by (rule astype_float32_range)
  obtain vg where vg: "astype_float32 g = Fin vg" "0 \<le> vg" "vg \<le> 255"
    by (rule astype_float32_range)
  obtain vb where vb: "astype_float32 b = Fin vb" "0 \<le> vb" "vb \<le> 255"
    by (rule astype_float32_range)
  have "0 \<le> 10032775 / 33554432 * vr" "10032775 / 33554432 * vr \<le> 10032775 / 33554432 * 255"
    using vr by simp_all
  from fl_of_rat_bounded [OF prec32 this f32_red]
  obtain x where x: "fl_of_rat binary32 (10032775 / 33554432 * vr) = Fin x"
    "0 \<le> x" "x \<le> 624599 / 8192" by blast
  have "0 \<le> 4924113 / 8388608 * vg" "4924113 / 8388608 * vg \<le> 4924113 / 8388608 * 255"
    using vg by simp_all
  from fl_of_rat_bounded [OF prec32 this f32_green]
  obtain y where y: "fl_of_rat binary32 (4924113 / 8388608 * vg) = Fin y"
    "0 \<le> y" "y \<le> 2452439 / 16384" by blast
  have "0 \<le> 15300821 / 134217728 * vb" "15300821 / 134217728 * vb \<le> 15300821 / 134217728 * 255"
    using vb by simp_all
  from fl_of_rat_bounded [OF prec32 this f32_blue]
  obtain z where z: "fl_of_rat binary32 (15300821 / 134217728 * vb) = Fin z"
    "0 \<le> z" "z \<le> 3810263 / 131072" by blast
  have "0 \<le> x + y" "x + y \<le> 624599 / 8192 + 2452439 / 16384"
    using x y by simp_all
  from fl_of_rat_bounded [OF prec32 this f32_red_green]
  obtain s where s: "fl_of_rat binary32 (x + y) = Fin s" "0 \<le> s" "s \<le> 3701637 / 16384"
    by blast
  have "0 \<le> s + z" "s + z \<le> 3701637 / 16384 + 3810263 / 131072"
    using s z by simp_all
  from fl_of_rat_bounded [OF prec32 this f32_white]
  obtain l where l: "fl_of_rat binary32 (s + z) = Fin l" "0 \<le> l" "l \<le> 255"
    by blast
  have mr: "fl_mul binary32 (Fin (10032775 / 33554432)) (Fin vr) = Fin x"
    using x(1) vr(2) by (simp add: fl_mul_Fin)
  have mg: "fl_mul binary32 (Fin (4924113 / 8388608)) (Fin vg) = Fin y"
    using y(1) vg(2) by (simp add: fl_mul_Fin)
  have mb: "fl_mul binary32 (Fin (15300821 / 134217728)) (Fin vb) = Fin z"
    using z(1) vb(2) by (simp add: fl_mul_Fin)
  have a1: "fl_add binary32 (Fin x) (Fin y) = Fin s"
    using s(1) by (simp add: fl_add_Fin)
  have a2: "fl_add binary32 (Fin s) (Fin z) = Fin l"
    using l(1) by (simp add: fl_add_Fin)
  have "lum p = Fin l"
    by (simp only: p lum.simps f32_lit_299 f32_lit_587 f32_lit_114 vr(1) vg(1) vb(1)
        mr mg mb a1 a2)
  with l that show ?thesis by blast
qed

lemma lum_norm_range:
  obtains n where "lum_norm p = Fin n" "0 \<le> n" "n \<le> 1"
proof -
  obtain l where l: "lum p = Fin l" "0 \<le> l" "l \<le> 255" by (rule lum_range)
  have "0 \<le> l / 255" "l / 255 \<le> 1" using l by simp_all
  from fl_of_rat_bounded [OF prec32 this f32_1]
  obtain n where "fl_of_rat binary32 (l / 255) = Fin n" "0 \<le> n" "n \<le> 1" by blast
  then have "fl_div binary32 (Fin l) (Fin 255) = Fin n" "0 \<le> n" "n \<le> 1"
    using l(2) by (simp_all add: fl_div_Fin)
  then show ?thesis using that [of n] by (simp only: lum_norm_def l(1) f32_lit_255)
qed

lemma biome_range:
  assumes "0 \<le> c" "c \<le> 255"
  obtains k where "biome c = Fin k" "0 \<le> k" "k \<le> 1"
proof -
  have "(0::rat) \<le> of_int c" "(of_int c :: rat) \<le> 255" using assms by simp_all
  from fl_of_rat_bounded [OF prec32 this f32_255]
  obtain v where v: "fl_of_rat binary32 (of_int c) = Fin v" "0 \<le> v" "v \<le> 255" by blast
  have "0 \<le> v / 255" "v / 255 \<le> 1" using v by simp_all
  from fl_of_rat_bounded [OF prec32 this f32_1]
  obtain k where "fl_of_rat binary32 (v / 255) = Fin k" "0 \<le> k" "k \<le> 1" by blast
  then have "fl_div binary32 (Fin v) (Fin 255) = Fin k" "0 \<le> k" "k \<le> 1"
    using v(2) by (simp_all add: fl_div_Fin)
  then show ?thesis using that [of k] by (simp only: biome_def v(1) f32_lit_255)
qed

lemma np_clip_unit: "0 \<le> q \<Longrightarrow> q \<le> 1 \<Longrightarrow> np_clip (Fin q) (py_float 0) (py_float 1) = Fin q"
  by (simp add: py_float_0 py_float_1 fl_lt_Fin)

text \<open>
  The value of a channel before its conversion: finite, not negative, and at most what
  a pixel of luma 1 gives with the same tint.
\<close>

lemma tinted_rgb_le:
  assumes c: "0 \<le> c" "c \<le> 255" and n: "lum_norm p = Fin n" "0 \<le> n" "n \<le> 1"
    and one: "lum_norm w = Fin 1"
  obtains z z1 where "tinted_rgb p c = Fin z" "tinted_rgb w c = Fin z1" "0 \<le> z" "z \<le> z1"
    "z1 \<le> 255"
proof -
  obtain k where k: "biome c = Fin k" "0 \<le> k" "k \<le> 1" by (rule biome_range [OF c])
  have "0 \<le> 1 * k" "1 * k \<le> 1" using k by simp_all
  from fl_of_rat_bounded [OF prec32 this f32_1]
  obtain q1 where q1: "fl_of_rat binary32 (1 * k) = Fin q1" "0 \<le> q1" "q1 \<le> 1" by blast
  have "0 \<le> n * k" "n * k \<le> 1 * k"
    using n k mult_left_le_one_le [OF k(2) n(2,3)] by simp_all
  from fl_of_rat_bounded [OF prec32 this q1(1)]
  obtain q where q: "fl_of_rat binary32 (n * k) = Fin q" "0 \<le> q" "q \<le> q1" by blast
  have q_le: "q \<le> 1" using q q1 by simp
  have "0 \<le> q1 * 255" "q1 * 255 \<le> 255" using q1 by simp_all
  from fl_of_rat_bounded [OF prec32 this f32_255]
  obtain z1 where z1: "fl_of_rat binary32 (q1 * 255) = Fin z1" "0 \<le> z1" "z1 \<le> 255" by blast
  have "0 \<le> q * 255" "q * 255 \<le> q1 * 255" using q by simp_all
  from fl_of_rat_bounded [OF prec32 this z1(1)]
  obtain z where z: "fl_of_rat binary32 (q * 255) = Fin z" "0 \<le> z" "z \<le> z1" by blast
  have "fl_mul binary32 (Fin n) (Fin k) = Fin q"
    using n(2) k(2) q(1) by (simp add: fl_mul_Fin)
  moreover have "fl_mul binary32 (Fin q) (Fin 255) = Fin z"
    using q(2) z(1) by (simp add: fl_mul_Fin)
  ultimately have "tinted_rgb p c = Fin z"
    by (simp only: tinted_rgb_def n(1) k(1) np_clip_unit [OF q(2) q_le] f32_lit_255)
  moreover have "fl_mul binary32 (Fin 1) (Fin k) = Fin q1"
    using k(2) q1(1) by (simp add: fl_mul_Fin)
  moreover have "fl_mul binary32 (Fin q1) (Fin 255) = Fin z1"
    using q1(2) z1(1) by (simp add: fl_mul_Fin)
  ultimately have "tinted_rgb w c = Fin z1"
    by (simp only: tinted_rgb_def one k(1) np_clip_unit [OF q1(2,3)] f32_lit_255)
  moreover note \<open>tinted_rgb p c = Fin z\<close>
  ultimately show ?thesis using z z1 that by blast
qed

lemma lum_white: "lum (255, 255, 255, a) = Fin 255"
  by (simp add: lum.simps astype_float32_def fl_eval)

lemma lum_norm_white: "lum_norm (255, 255, 255, a) = Fin 1"
  by (simp add: lum_norm_def lum_white f32_lit_255) (simp add: fl_eval)

lemma tinted_rgb_white:
  "tinted_rgb (255, 255, 255, a) c =
     fl_mul binary32
       (np_clip (fl_mul binary32 (Fin 1) (fl_div binary32 (fl_of_rat binary32 (of_int c)) (Fin 255)))
          (Fin 0) (Fin 1))
       (Fin 255)"
  by (simp only: tinted_rgb_def lum_norm_white biome_def f32_lit_255 py_float_0 py_float_1)

lemma white_exact_eval:
  "white_exact c =
     (astype_uint8 (fl_mul binary32
        (np_clip (fl_mul binary32 (Fin 1) (fl_div binary32 (fl_of_rat binary32 (of_int c)) (Fin 255)))
           (Fin 0) (Fin 1))
        (Fin 255)) = Inr (word_of_int c))"
  by (simp only: white_exact_def tinted_def tinted_rgb_white)

lemma white_exact_0: "white_exact 0 \<and> white_exact 1"
  by (simp add: white_exact_eval fl_eval trunc_def)

lemma white_exact_2: "list_all white_exact [2..31]"
  by (simp add: white_exact_eval fl_eval trunc_def)

lemma white_exact_32: "list_all white_exact [32..63]"
  by (simp add: white_exact_eval fl_eval trunc_def)

lemma white_exact_64: "list_all white_exact [64..95]"
  by (simp add: white_exact_eval fl_eval trunc_def)

lemma white_exact_96: "list_all white_exact [96..127]"
  by (simp add: white_exact_eval fl_eval trunc_def)

lemma white_exact_128: "list_all white_exact [128..159]"
  by (simp add: white_exact_eval fl_eval trunc_def)

lemma white_exact_160: "list_all white_exact [160..191]"
  by (simp add: white_exact_eval fl_eval trunc_def)

lemma white_exact_192: "list_all white_exact [192..223]"
  by (simp add: white_exact_eval fl_eval trunc_def)

lemma white_exact_224: "list_all white_exact [224..255]"
  by (simp add: white_exact_eval fl_eval trunc_def)

lemma white_exact_all:
  assumes "0 \<le> c" "c \<le> 255"
  shows "white_exact c"
proof -
  note chunks = white_exact_2 white_exact_32 white_exact_64 white_exact_96 white_exact_128 white_exact_160 white_exact_192 white_exact_224
  have "c = 0 \<or> c = 1 \<or> c \<in> {2..31} \<or> c \<in> {32..63} \<or> c \<in> {64..95} \<or> c \<in> {96..127} \<or> c \<in> {128..159} \<or> c \<in> {160..191} \<or> c \<in> {192..223} \<or> c \<in> {224..255}"
    using assms by (simp only: atLeastAtMost_iff) presburger
  then show ?thesis
    using white_exact_0 chunks [unfolded list_all_iff set_upto] by blast
qed

lemma tinted_white:
  assumes "0 \<le> c" "c \<le> 255"
  shows "tinted (255, 255, 255, a) c = Inr (word_of_int c)"
proof -
  have "tinted (255, 255, 255, a) c = tinted (255, 255, 255, 255) c"
    by (simp only: tinted_def tinted_rgb_white)
  then show ?thesis using white_exact_all [OF assms] by (simp only: white_exact_def)
qed

lemma floor_byte:
  assumes "0 \<le> z" "z < 256" "(word_of_int \<lfloor>z\<rfloor> :: byte) = word_of_int c" "0 \<le> c" "c \<le> 255"
  shows "\<lfloor>z\<rfloor> = c"
proof -
  have "0 \<le> \<lfloor>z\<rfloor>" "\<lfloor>z\<rfloor> < 256" using assms(1,2) by (simp_all add: floor_less_iff)
  then have l: "uint (word_of_int \<lfloor>z\<rfloor> :: byte) = \<lfloor>z\<rfloor>" by (simp add: uint_word_of_int)
  have r: "uint (word_of_int c :: byte) = c" using assms(4,5) by (simp add: uint_word_of_int)
  have "uint (word_of_int \<lfloor>z\<rfloor> :: byte) = uint (word_of_int c :: byte)"
    by (simp only: assms(3))
  then show ?thesis by (simp only: l r)
qed

text \<open>One channel of one pixel: the conversion is defined, and the result is at most the tint.\<close>

lemma tinted_le:
  assumes c: "0 \<le> c" "c \<le> 255"
  obtains v where "tinted p c = Inr v" "uint v \<le> c"
proof -
  obtain n where n: "lum_norm p = Fin n" "0 \<le> n" "n \<le> 1" by (rule lum_norm_range)
  obtain z z1 where z: "tinted_rgb p c = Fin z" "tinted_rgb (255, 255, 255, 255) c = Fin z1"
    "0 \<le> z" "z \<le> z1" "z1 \<le> 255"
    by (rule tinted_rgb_le [OF c n lum_norm_white])
  have "astype_uint8 (Fin z1) = Inr (word_of_int c)"
    using tinted_white [OF c, of 255] by (simp add: tinted_def z(2))
  moreover have z1: "0 \<le> z1" "z1 < 256" using z by simp_all
  ultimately have "(word_of_int \<lfloor>z1\<rfloor> :: byte) = word_of_int c"
    by (simp add: trunc_def)
  from floor_byte [OF z1 this c] have "\<lfloor>z1\<rfloor> = c" .
  moreover have "\<lfloor>z\<rfloor> \<le> \<lfloor>z1\<rfloor>" using z(4) by (rule floor_mono)
  ultimately have le: "\<lfloor>z\<rfloor> \<le> c" by simp
  have ge: "0 \<le> \<lfloor>z\<rfloor>" using z(3) by simp
  have "tinted p c = Inr (word_of_int \<lfloor>z\<rfloor>)"
    using z z1 by (simp add: tinted_def trunc_def)
  moreover have "\<lfloor>z\<rfloor> < 256" using le c by linarith
  then have "uint (word_of_int \<lfloor>z\<rfloor> :: byte) = \<lfloor>z\<rfloor>"
    using ge by (simp add: uint_word_of_int)
  ultimately show ?thesis using le that by simp
qed

section \<open>The tinter on whole images\<close>

lemma tint_pixel_ok:
  assumes "0 \<le> cr" "cr \<le> 255" "0 \<le> cg" "cg \<le> 255" "0 \<le> cb" "cb \<le> 255"
  obtains r' g' b' where "tint_pixel (cr, cg, cb) p = Inr (r', g', b', alpha p)"
    "uint r' \<le> cr" "uint g' \<le> cg" "uint b' \<le> cb"
proof -
  obtain r g b a where p: "p = (r, g, b, a)" by (cases p)
  obtain r' where r': "tinted p cr = Inr r'" "uint r' \<le> cr" by (rule tinted_le [OF assms(1,2)])
  obtain g' where g': "tinted p cg = Inr g'" "uint g' \<le> cg" by (rule tinted_le [OF assms(3,4)])
  obtain b' where b': "tinted p cb = Inr b'" "uint b' \<le> cb" by (rule tinted_le [OF assms(5,6)])
  have "tint_pixel (cr, cg, cb) p = Inr (r', g', b', alpha p)"
    using r'(1) g'(1) b'(1) by (simp add: p)
  with r' g' b' that show ?thesis by blast
qed

lemma tint_pixel_white:
  assumes "0 \<le> cr" "cr \<le> 255" "0 \<le> cg" "cg \<le> 255" "0 \<le> cb" "cb \<le> 255"
  shows "tint_pixel (cr, cg, cb) (255, 255, 255, a)
     = Inr (word_of_int cr, word_of_int cg, word_of_int cb, a)"
  by (simp add: tinted_white assms)

lemma sequence_map:
  assumes "\<And>x. x \<in> set xs \<Longrightarrow> \<exists>y. f x = Inr y"
  shows "\<exists>ys. sequence (map f xs) = Inr ys \<and> length ys = length xs
     \<and> (\<forall>i<length xs. f (xs ! i) = Inr (ys ! i))"
  using assms
proof (induction xs)
  case Nil
  then show ?case by simp
next
  case (Cons x xs)
  then obtain y where y: "f x = Inr y" by auto
  from Cons obtain ys where ys: "sequence (map f xs) = Inr ys" "length ys = length xs"
    "\<forall>i<length xs. f (xs ! i) = Inr (ys ! i)" by auto
  have "sequence (map f (x # xs)) = Inr (y # ys)" by (simp add: y ys(1))
  moreover have "\<forall>i<length (x # xs). f ((x # xs) ! i) = Inr ((y # ys) ! i)"
    using y ys(3) by (auto simp: nth_Cons split: nat.splits)
  ultimately show ?case using ys(2) by auto
qed

lemma size_convert_RGBA: "(width (convert_RGBA img), height (convert_RGBA img)) = size_of img"
  by (cases img) (simp_all add: map_raster_def)

text \<open>The tinter never fails on an 8-bit tint, and works pixel by pixel.\<close>

lemma tint_image:
  assumes "0 \<le> cr" "cr \<le> 255" "0 \<le> cg" "cg \<le> 255" "0 \<le> cb" "cb \<le> 255"
  obtains out where "tint_grayscale_rgba img (cr, cg, cb) = Inr (ImgRGBA out)"
    "(width out, height out) = size_of img"
    "length (pixels out) = length (pixels (convert_RGBA img))"
    "\<forall>i<length (pixels (convert_RGBA img)).
       tint_pixel (cr, cg, cb) (pixels (convert_RGBA img) ! i) = Inr (pixels out ! i)"
proof -
  let ?rgba = "convert_RGBA img"
  have "\<exists>y. tint_pixel (cr, cg, cb) x = Inr y" for x
    using tint_pixel_ok [OF assms, of x] by blast
  then obtain ys where ys: "sequence (map (tint_pixel (cr, cg, cb)) (pixels ?rgba)) = Inr ys"
    "length ys = length (pixels ?rgba)"
    "\<forall>i<length (pixels ?rgba). tint_pixel (cr, cg, cb) (pixels ?rgba ! i) = Inr (ys ! i)"
    using sequence_map [of "pixels ?rgba" "tint_pixel (cr, cg, cb)"] by blast
  let ?out = "\<lparr>width = width ?rgba, height = height ?rgba, pixels = ys\<rparr>"
  have "tint_grayscale_rgba img (cr, cg, cb) = Inr (ImgRGBA ?out)"
    by (simp add: tint_grayscale_rgba_def Let_def ys(1))
  then show ?thesis
    using that [of ?out] ys(2,3) size_convert_RGBA [of img] by simp
qed

text \<open>
  Claim C2: for every tint colour \<open>c\<close> and every input image, the tinter maps each
  pure-white pixel to exactly \<open>c\<close> in the three colour channels; in particular tint
  \<open>(255, 255, 255)\<close> leaves a white pixel white.
\<close>

theorem white_becomes_tint:
  assumes "0 \<le> cr" "cr \<le> 255" "0 \<le> cg" "cg \<le> 255" "0 \<le> cb" "cb \<le> 255"
  shows "tint_pixel (cr, cg, cb) (255, 255, 255, a)
       = Inr (word_of_int cr, word_of_int cg, word_of_int cb, a)
    \<and> tint_pixel (255, 255, 255) (255, 255, 255, a) = Inr (255, 255, 255, a)
    \<and> (\<exists>out. tint_grayscale_rgba img (cr, cg, cb) = Inr (ImgRGBA out)
        \<and> length (pixels out) = length (pixels (convert_RGBA img))
        \<and> (\<forall>i a'. i < length (pixels (convert_RGBA img))
              \<and> pixels (convert_RGBA img) ! i = (255, 255, 255, a')
            \<longrightarrow> pixels out ! i = (word_of_int cr, word_of_int cg, word_of_int cb, a')))"
proof -
  obtain out where out: "tint_grayscale_rgba img (cr, cg, cb) = Inr (ImgRGBA out)"
    "(width out, height out) = size_of img"
    "length (pixels out) = length (pixels (convert_RGBA img))"
    "\<forall>i<length (pixels (convert_RGBA img)).
       tint_pixel (cr, cg, cb) (pixels (convert_RGBA img) ! i) = Inr (pixels out ! i)"
    by (rule tint_image [OF assms, of img])
  have "pixels out ! i = (word_of_int cr, word_of_int cg, word_of_int cb, a')"
    if "i < length (pixels (convert_RGBA img))"
      and "pixels (convert_RGBA img) ! i = (255, 255, 255, a')" for i a'
  proof -
    from out(4) that(1)
    have "tint_pixel (cr, cg, cb) (pixels (convert_RGBA img) ! i) = Inr (pixels out ! i)"
      by blast
    then show ?thesis
      by (simp only: that(2) tint_pixel_white [OF assms] sum.inject)
  qed
  moreover have "tint_pixel (255, 255, 255) (255, 255, 255, a) = Inr (255, 255, 255, a)"
    using tint_pixel_white [of 255 255 255 a] by simp
  ultimately show ?thesis
    using out(1,3) tint_pixel_white [OF assms, of a] by blast
qed

theorem white_becomes_tint_witness:
  "tint_pixel (10, 20, 30) (255, 255, 255, 7) = Inr (10, 20, 30, 7)"
  using white_becomes_tint [of 10 20 30 7] by simp

lemma alpha_convert_RGBA:
  "(\<forall>r. img = ImgL r \<longrightarrow> map alpha (pixels (convert_RGBA img)) = replicate (length (pixels r)) 255)
   \<and> (\<forall>r. img = ImgRGB r \<longrightarrow> map alpha (pixels (convert_RGBA img)) = replicate (length (pixels r)) 255)
   \<and> (\<forall>r. img = ImgLA r \<longrightarrow> map alpha (pixels (convert_RGBA img)) = map snd (pixels r))
   \<and> (\<forall>r. img = ImgRGBA r \<longrightarrow> map alpha (pixels (convert_RGBA img)) = map alpha (pixels r))"
  by (cases img)
    (auto simp: map_raster_def map_replicate_const split: prod.splits intro!: nth_equalityI)

text \<open>
  Claim C3: for every input image and every tint colour, the output of the tinter has
  the dimensions of the input, and its alpha channel is the alpha channel of the input
  converted to RGBA, pixel for pixel: the alpha of the input where it has one, and fully
  opaque (255) where it has none. Only the three colour channels change.
\<close>

theorem tint_keeps_alpha:
  assumes "0 \<le> cr" "cr \<le> 255" "0 \<le> cg" "cg \<le> 255" "0 \<le> cb" "cb \<le> 255"
  shows "\<exists>out. tint_grayscale_rgba img (cr, cg, cb) = Inr (ImgRGBA out)
    \<and> (width out, height out) = size_of img
    \<and> length (pixels out) = length (pixels (convert_RGBA img))
    \<and> map alpha (pixels out) = map alpha (pixels (convert_RGBA img))
    \<and> (\<forall>r. img = ImgL r \<longrightarrow> map alpha (pixels out) = replicate (length (pixels r)) 255)
    \<and> (\<forall>r. img = ImgRGB r \<longrightarrow> map alpha (pixels out) = replicate (length (pixels r)) 255)
    \<and> (\<forall>r. img = ImgLA r \<longrightarrow> map alpha (pixels out) = map snd (pixels r))
    \<and> (\<forall>r. img = ImgRGBA r \<longrightarrow> map alpha (pixels out) = map alpha (pixels r))"
proof -
  obtain out where out: "tint_grayscale_rgba img (cr, cg, cb) = Inr (ImgRGBA out)"
    "(width out, height out) = size_of img"
    "length (pixels out) = length (pixels (convert_RGBA img))"
    "\<forall>i<length (pixels (convert_RGBA img)).
       tint_pixel (cr, cg, cb) (pixels (convert_RGBA img) ! i) = Inr (pixels out ! i)"
    by (rule tint_image [OF assms, of img])
  have "alpha (pixels out ! i) = alpha (pixels (convert_RGBA img) ! i)"
    if "i < length (pixels (convert_RGBA img))" for i
  proof -
    obtain r' g' b' where "tint_pixel (cr, cg, cb) (pixels (convert_RGBA img) ! i)
        = Inr (r', g', b', alpha (pixels (convert_RGBA img) ! i))"
      "uint r' \<le> cr" "uint g' \<le> cg" "uint b' \<le> cb"
      by (rule tint_pixel_ok [OF assms])
    moreover from out(4) that
    have "tint_pixel (cr, cg, cb) (pixels (convert_RGBA img) ! i) = Inr (pixels out ! i)"
      by blast
    ultimately have "pixels out ! i = (r', g', b', alpha (pixels (convert_RGBA img) ! i))"
      by (simp only: sum.inject)
    then show ?thesis by simp
  qed
  then have eq: "map alpha (pixels out) = map alpha (pixels (convert_RGBA img))"
    using out(3) by (intro nth_equalityI) simp_all
  show ?thesis
    using out(1-3) eq alpha_convert_RGBA [of img] by (intro exI [of _ out]) (simp only: simp_thms)
qed

theorem tint_keeps_alpha_witness:
  "\<exists>out. tint_grayscale_rgba (ImgRGBA \<lparr>width = 1, height = 1, pixels = [(9, 9, 9, 7)]\<rparr>)
        (10, 20, 30) = Inr (ImgRGBA out)
     \<and> (width out, height out) = (1, 1) \<and> map alpha (pixels out) = [7]"
proof -
  let ?img = "ImgRGBA \<lparr>width = 1, height = 1, pixels = [(9, 9, 9, 7)]\<rparr>"
  from tint_keeps_alpha [of 10 20 30 ?img]
  obtain out where "tint_grayscale_rgba ?img (10, 20, 30) = Inr (ImgRGBA out)"
    "(width out, height out) = size_of ?img"
    "map alpha (pixels out) = map alpha (pixels (convert_RGBA ?img))"
    by auto
  then show ?thesis by (intro exI [of _ out]) simp
qed

text \<open>
  Claim C10: for every input image, every pixel and every tint colour \<open>c\<close>, each colour
  channel of the output is at most the corresponding channel of \<open>c\<close>: the luma of a
  pixel, divided by 255, is at most 1, and the product with the tint is clipped to
  \<open>[0, 1]\<close> before it is scaled back.
\<close>

theorem tint_darkens:
  assumes "0 \<le> cr" "cr \<le> 255" "0 \<le> cg" "cg \<le> 255" "0 \<le> cb" "cb \<le> 255"
  shows "(\<exists>v. tinted p cr = Inr v \<and> uint v \<le> cr)
    \<and> (\<exists>out. tint_grayscale_rgba img (cr, cg, cb) = Inr (ImgRGBA out)
        \<and> length (pixels out) = length (pixels (convert_RGBA img))
        \<and> (\<forall>i<length (pixels out). \<exists>r g b a. pixels out ! i = (r, g, b, a)
              \<and> uint r \<le> cr \<and> uint g \<le> cg \<and> uint b \<le> cb))"
proof -
  obtain out where out: "tint_grayscale_rgba img (cr, cg, cb) = Inr (ImgRGBA out)"
    "(width out, height out) = size_of img"
    "length (pixels out) = length (pixels (convert_RGBA img))"
    "\<forall>i<length (pixels (convert_RGBA img)).
       tint_pixel (cr, cg, cb) (pixels (convert_RGBA img) ! i) = Inr (pixels out ! i)"
    by (rule tint_image [OF assms, of img])
  have "\<exists>r g b a. pixels out ! i = (r, g, b, a) \<and> uint r \<le> cr \<and> uint g \<le> cg \<and> uint b \<le> cb"
    if "i < length (pixels out)" for i
  proof -
    obtain r' g' b' where px: "tint_pixel (cr, cg, cb) (pixels (convert_RGBA img) ! i)
        = Inr (r', g', b', alpha (pixels (convert_RGBA img) ! i))"
      "uint r' \<le> cr" "uint g' \<le> cg" "uint b' \<le> cb"
      by (rule tint_pixel_ok [OF assms])
    moreover from out(3,4) that
    have "tint_pixel (cr, cg, cb) (pixels (convert_RGBA img) ! i) = Inr (pixels out ! i)"
      by simp
    ultimately have "pixels out ! i = (r', g', b', alpha (pixels (convert_RGBA img) ! i))"
      by (simp only: sum.inject)
    with px(2-4) show ?thesis by blast
  qed
  moreover obtain v where "tinted p cr = Inr v" "uint v \<le> cr"
    by (rule tinted_le [OF assms(1,2)])
  ultimately show ?thesis using out(1,3) by blast
qed

theorem tint_darkens_witness:
  "\<exists>v. tinted (200, 100, 50, 7) 30 = Inr v \<and> uint v \<le> 30"
  using tint_darkens [of 30 30 30 "(200, 100, 50, 7)"] by simp

section \<open>Default output names\<close>

lemma exit_code_uncaught: "exit_code (uncaught e fs) = 1"
  by (simp add: uncaught_def)

lemma exit_code_step: "exit_code (step r fs k) = 0 \<longleftrightarrow> (\<exists>x. r = Inr x \<and> exit_code (k x) = 0)"
  by (cases r) (simp_all add: exit_code_uncaught)

lemma save_Inr: "save fs p img = Inr fs' \<Longrightarrow> fs' = fs(p \<mapsto> RegularFile (Some img))"
  by (auto simp: save_def split: option.splits node.splits)

text \<open>A run of the driver that ends with status 0 has come through every step.\<close>

lemma process_success:
  assumes "exit_code (process over args rgb fs) = 0"
  obtains fs1 top_coloured fs2 side_coloured where
    "save fs1 (out_path (a_out_top args) (''grass_block_top_'' @ suffix args @ ''.png''))
       top_coloured = Inr fs2"
    "save fs2 (out_path (a_out_side args) (''grass_block_side_'' @ suffix args @ ''.png''))
       side_coloured = Inr (files (process over args rgb fs))"
    "stderr (process over args rgb fs) =
       summary args rgb
         (out_path (a_out_top args) (''grass_block_top_'' @ suffix args @ ''.png''))
         (out_path (a_out_side args) (''grass_block_side_'' @ suffix args @ ''.png''))"
proof -
  let ?top = "out_path (a_out_top args) (''grass_block_top_'' @ suffix args @ ''.png'')"
  let ?side = "out_path (a_out_side args) (''grass_block_side_'' @ suffix args @ ''.png'')"
  from assms obtain fs1 top_img top_coloured fs2 side_overlay overlay_coloured side_base
      side_coloured fs3 where steps:
    "makedirs fs ''out'' = Inr fs1"
    "image_open fs1 (a_top args) = Inr top_img"
    "tint_grayscale_rgba top_img rgb = Inr top_coloured"
    "save fs1 ?top top_coloured = Inr fs2"
    "image_open fs2 (a_side_overlay args) = Inr side_overlay"
    "tint_grayscale_rgba side_overlay rgb = Inr overlay_coloured"
    "image_open fs2 (a_side_base args) = Inr side_base"
    "composite_overlay_onto_base over side_base overlay_coloured = Inr side_coloured"
    "save fs2 ?side side_coloured = Inr fs3"
    unfolding process_def Let_def exit_code_step by blast
  have "process over args rgb fs =
      \<lparr>exit_code = 0, stderr = summary args rgb ?top ?side, files = fs3\<rparr>"
    unfolding process_def Let_def steps step.simps ..
  then show ?thesis using that [of fs1 top_coloured fs2 side_coloured] steps(4,9) by simp
qed

lemma main_success:
  assumes "exit_code (main over args fs) = 0"
  obtains rgb where "main over args fs = process over args rgb fs"
proof (cases "find (\<lambda>path. \<not> isfile fs path)
    [a_top args, a_side_overlay args, a_side_base args, a_colormap args]")
  case (Some p)
  with assms show ?thesis by (simp add: main_def exit_error_def)
next
  case None
  let ?rest = "\<lambda>img. let cmap = ImgRGB (convert_RGB img) in
          if size_of cmap \<noteq> (256, 256)
          then exit_error
                 (''Error: colormap must be 256x256, got '' @ repr_size (size_of cmap)) fs
          else step (sample_biome_color cmap (a_temperature args) (a_downfall args)) fs
                 (\<lambda>biome_rgb. process over args biome_rgb fs)"
  have m: "main over args fs = step (image_open fs (a_colormap args)) fs ?rest"
    unfolding main_def None by simp
  from assms obtain img where img: "image_open fs (a_colormap args) = Inr img"
    and e: "exit_code (?rest img) = 0"
    unfolding m exit_code_step by blast
  have sz: "size_of (ImgRGB (convert_RGB img)) = (256, 256)"
  proof (rule ccontr)
    assume "size_of (ImgRGB (convert_RGB img)) \<noteq> (256, 256)"
    then have "exit_code (?rest img) = 1" by (simp add: Let_def exit_error_def)
    with e show False by simp
  qed
  then have r: "?rest img = step (sample_biome_color (ImgRGB (convert_RGB img))
      (a_temperature args) (a_downfall args)) fs (\<lambda>biome_rgb. process over args biome_rgb fs)"
    by (simp add: Let_def)
  from e obtain rgb where rgb: "sample_biome_color (ImgRGB (convert_RGB img))
      (a_temperature args) (a_downfall args) = Inr rgb"
    unfolding r exit_code_step by blast
  have "main over args fs = process over args rgb fs"
    unfolding m img step.simps r rgb ..
  then show ?thesis by (rule that)
qed

text \<open>
  A run that succeeds: one white pixel for each texture, a colormap of one colour,
  temperature 0.5 and downfall 1.0, and no directory \<^verbatim>\<open>out\<close> yet.
\<close>

lemma param_str_half: "param_str (py_float (1 / 2)) = ''0.5''"
  by (simp add: param_str_def fl_eval fixed_def rstrip_def)

lemma param_str_one: "param_str (py_float 1) = ''1''"
  by (simp add: param_str_def fl_eval fixed_def rstrip_def)

lemma dirname_default:
  "dirname ''out/grass_block_top_0.5_1.png'' = ''out''"
  "dirname ''out/grass_block_side_0.5_1.png'' = ''out''"
  by (simp_all add: dirname_def rstrip_def)

lemma default_run:
  fixes white :: image and over :: "rgba \<Rightarrow> rgba \<Rightarrow> rgba"
  defines "white \<equiv> ImgRGBA \<lparr>width = 1, height = 1, pixels = [(255, 255, 255, 255)]\<rparr>"
  shows "exit_code (main over
     \<lparr>a_top = ''top.png'', a_side_overlay = ''overlay.png'', a_side_base = ''side.png'',
      a_colormap = ''colourmap.png'', a_temperature = py_float (1 / 2),
      a_downfall = py_float 1, a_out_top = None, a_out_side = None\<rparr>
     [''top.png'' \<mapsto> RegularFile (Some white), ''overlay.png'' \<mapsto> RegularFile (Some white),
      ''side.png'' \<mapsto> RegularFile (Some white),
      ''colourmap.png'' \<mapsto> RegularFile (Some
         (ImgRGB \<lparr>width = 256, height = 256, pixels = replicate 65536 (1, 2, 3)\<rparr>))]) = 0"
    (is "exit_code (main over ?args ?fs) = 0")
proof -
  let ?cmap = "ImgRGB \<lparr>width = 256, height = 256, pixels = replicate 65536 (1, 2, 3)\<rparr>"
  let ?top = "''out/grass_block_top_0.5_1.png''"
  let ?side = "''out/grass_block_side_0.5_1.png''"
  let ?fs1 = "?fs(''out'' \<mapsto> Directory)"
  have valid: "find (\<lambda>path. \<not> isfile ?fs path)
      [a_top ?args, a_side_overlay ?args, a_side_base ?args, a_colormap ?args] = None"
    by (simp add: isfile_def)
  have cm: "image_open ?fs (a_colormap ?args) = Inr ?cmap"
    by (simp add: image_open_def)
  have conv: "ImgRGB (convert_RGB ?cmap) = ?cmap" by simp
  have sz: "size_of ?cmap = (256, 256)" by simp
  have wf: "wf_image ?cmap" by (simp add: wf_raster_def)
  have rgb: "sample_biome_color ?cmap (a_temperature ?args) (a_downfall ?args) = Inr (1, 2, 3)"
    using sample_at [OF wf sz half_one_coords] by simp
  have m: "main over ?args ?fs = process over ?args (1, 2, 3) ?fs"
    unfolding main_def valid option.case cm step.simps Let_def conv sz rgb by simp
  have suffix: "suffix ?args = ''0.5_1''"
    by (simp add: suffix_def param_str_half param_str_one)
  have top: "out_path (a_out_top ?args) (''grass_block_top_'' @ suffix ?args @ ''.png'') = ?top"
    and side: "out_path (a_out_side ?args) (''grass_block_side_'' @ suffix ?args @ ''.png'') = ?side"
    unfolding suffix by (simp_all add: out_path_def)
  obtain out where out: "tint_grayscale_rgba white (1, 2, 3) = Inr (ImgRGBA out)"
    and out_size: "(width out, height out) = size_of white"
    by (rule tint_image [of 1 2 3 white]) simp_all
  let ?fs2 = "?fs1(?top \<mapsto> RegularFile (Some (ImgRGBA out)))"
  have comp: "composite_overlay_onto_base over white (ImgRGBA out)
      = Inr (ImgRGBA \<lparr>width = 1, height = 1,
          pixels = map2 over [(255, 255, 255, 255)] (pixels out)\<rparr>)"
    using out_size by (simp add: composite_overlay_onto_base_def white_def)
  have steps:
    "makedirs ?fs ''out'' = Inr ?fs1"
    "image_open ?fs1 (a_top ?args) = Inr white"
    "save ?fs1 ?top (ImgRGBA out) = Inr ?fs2"
    "image_open ?fs2 (a_side_overlay ?args) = Inr white"
    "image_open ?fs2 (a_side_base ?args) = Inr white"
    by (simp_all add: makedirs_def image_open_def save_def parent_node_def dirname_default)
  have s9: "\<exists>fs3. save ?fs2 ?side img = Inr fs3" for img
    by (simp add: save_def parent_node_def dirname_default)
  then obtain fs3 where fs3: "save ?fs2 ?side (ImgRGBA \<lparr>width = 1, height = 1,
          pixels = map2 over [(255, 255, 255, 255)] (pixels out)\<rparr>) = Inr fs3"
    by blast
  have "process over ?args (1, 2, 3) ?fs =
      \<lparr>exit_code = 0, stderr = summary ?args (1, 2, 3) ?top ?side, files = fs3\<rparr>"
    unfolding process_def Let_def top side steps step.simps out comp fs3 ..
  then show ?thesis by (simp add: m)
qed

lemma top_side_differ: "''out/grass_block_top_'' @ s \<noteq> ''out/grass_block_side_'' @ s'"
  by simp

text \<open>
  Claim C7: the default output names embed temperature and downfall, each formatted to
  two decimals, with trailing \<^verbatim>\<open>0\<close> characters and then a trailing \<^verbatim>\<open>.\<close> stripped:
  a run of the driver that succeeds without \<^verbatim>\<open>--out-top\<close> and \<^verbatim>\<open>--out-side\<close> has
  written its two images under these names and reports the names on the error stream.
  In them 0.5 gives \<^verbatim>\<open>0.5\<close>, 0.80 gives \<^verbatim>\<open>0.8\<close>, 1.00 gives \<^verbatim>\<open>1\<close>, and 0.333
  gives \<^verbatim>\<open>0.33\<close>.
\<close>

theorem default_names:
  assumes "exit_code (main over args fs) = 0"
    and "a_out_top args = None" and "a_out_side args = None"
  shows "(\<exists>top_coloured side_coloured rgb_line.
        files (main over args fs)
          (''out/grass_block_top_'' @ rstrip (rstrip (format_f 2 (a_temperature args)) ''0'') ''.''
             @ ''_'' @ rstrip (rstrip (format_f 2 (a_downfall args)) ''0'') ''.'' @ ''.png'')
          = Some (RegularFile (Some top_coloured))
      \<and> files (main over args fs)
          (''out/grass_block_side_'' @ rstrip (rstrip (format_f 2 (a_temperature args)) ''0'') ''.''
             @ ''_'' @ rstrip (rstrip (format_f 2 (a_downfall args)) ''0'') ''.'' @ ''.png'')
          = Some (RegularFile (Some side_coloured))
      \<and> stderr (main over args fs) =
          [rgb_line,
           Printed (''Wrote top  -> out/grass_block_top_''
             @ rstrip (rstrip (format_f 2 (a_temperature args)) ''0'') ''.''
             @ ''_'' @ rstrip (rstrip (format_f 2 (a_downfall args)) ''0'') ''.'' @ ''.png''),
           Printed (''Wrote side -> out/grass_block_side_''
             @ rstrip (rstrip (format_f 2 (a_temperature args)) ''0'') ''.''
             @ ''_'' @ rstrip (rstrip (format_f 2 (a_downfall args)) ''0'') ''.'' @ ''.png'')])
    \<and> format_f 2 (py_float (1 / 2)) = ''0.50''
    \<and> format_f 2 (py_float (4 / 5)) = ''0.80''
    \<and> format_f 2 (py_float 1) = ''1.00''
    \<and> format_f 2 (py_float (333 / 1000)) = ''0.33''
    \<and> rstrip (rstrip (format_f 2 (py_float (1 / 2))) ''0'') ''.'' = ''0.5''
    \<and> rstrip (rstrip (format_f 2 (py_float (4 / 5))) ''0'') ''.'' = ''0.8''
    \<and> rstrip (rstrip (format_f 2 (py_float 1)) ''0'') ''.'' = ''1''
    \<and> rstrip (rstrip (format_f 2 (py_float (333 / 1000))) ''0'') ''.'' = ''0.33''"
proof -
  let ?t = "rstrip (rstrip (format_f 2 (a_temperature args)) ''0'') ''.''"
  let ?d = "rstrip (rstrip (format_f 2 (a_downfall args)) ''0'') ''.''"
  let ?top = "''out/grass_block_top_'' @ ?t @ ''_'' @ ?d @ ''.png''"
  let ?side = "''out/grass_block_side_'' @ ?t @ ''_'' @ ?d @ ''.png''"
  obtain rgb where m: "main over args fs = process over args rgb fs"
    by (rule main_success [OF assms(1)])
  have top: "out_path (a_out_top args) (''grass_block_top_'' @ suffix args @ ''.png'') = ?top"
    and side: "out_path (a_out_side args) (''grass_block_side_'' @ suffix args @ ''.png'') = ?side"
    by (simp_all add: out_path_def assms(2,3) suffix_def param_str_def)
  from assms(1) have "exit_code (process over args rgb fs) = 0" by (simp only: m)
  then obtain fs1 top_coloured fs2 side_coloured where
    s1: "save fs1 ?top top_coloured = Inr fs2"
    and s2: "save fs2 ?side side_coloured = Inr (files (process over args rgb fs))"
    and err: "stderr (process over args rgb fs) = summary args rgb ?top ?side"
    unfolding top [symmetric] side [symmetric] by (rule process_success)
  have ne: "?side \<noteq> ?top" by simp
  have f2: "fs2 = fs1(?top \<mapsto> RegularFile (Some top_coloured))"
    using s1 by (rule save_Inr)
  have f3: "files (process over args rgb fs) = fs2(?side \<mapsto> RegularFile (Some side_coloured))"
    using s2 by (rule save_Inr)
  have a: "files (main over args fs) ?top = Some (RegularFile (Some top_coloured))"
    unfolding m f3 f2 using ne by simp
  have b: "files (main over args fs) ?side = Some (RegularFile (Some side_coloured))"
    unfolding m f3 by simp
  have c: "\<exists>rgb_line. stderr (main over args fs) =
      [rgb_line, Printed (''Wrote top  -> '' @ ?top), Printed (''Wrote side -> '' @ ?side)]"
    unfolding m err summary_def by blast
  have e1: "format_f 2 (py_float (1 / 2)) = ''0.50''" by (simp add: fl_eval fixed_def)
  have e2: "format_f 2 (py_float (4 / 5)) = ''0.80''" by (simp add: fl_eval fixed_def)
  have e3: "format_f 2 (py_float 1) = ''1.00''" by (simp add: fl_eval fixed_def)
  have e4: "format_f 2 (py_float (333 / 1000)) = ''0.33''" by (simp add: fl_eval fixed_def)
  have r: "rstrip (rstrip ''0.50'' ''0'') ''.'' = ''0.5''" "rstrip (rstrip ''0.80'' ''0'') ''.'' = ''0.8''"
    "rstrip (rstrip ''1.00'' ''0'') ''.'' = ''1''" "rstrip (rstrip ''0.33'' ''0'') ''.'' = ''0.33''"
    by (simp_all add: rstrip_def)
  from a b c have "\<exists>top_coloured side_coloured rgb_line.
        files (main over args fs) ?top = Some (RegularFile (Some top_coloured))
      \<and> files (main over args fs) ?side = Some (RegularFile (Some side_coloured))
      \<and> stderr (main over args fs) =
          [rgb_line, Printed (''Wrote top  -> '' @ ?top), Printed (''Wrote side -> '' @ ?side)]"
    by blast
  then show ?thesis
    unfolding e1 e2 e3 e4 r by simp
qed

theorem default_names_witness:
  "let out = main (\<lambda>p q. q)
       \<lparr>a_top = ''top.png'', a_side_overlay = ''overlay.png'', a_side_base = ''side.png'',
        a_colormap = ''colourmap.png'', a_temperature = py_float (1 / 2),
        a_downfall = py_float 1, a_out_top = None, a_out_side = None\<rparr>
       [''top.png'' \<mapsto> RegularFile (Some
          (ImgRGBA \<lparr>width = 1, height = 1, pixels = [(255, 255, 255, 255)]\<rparr>)),
        ''overlay.png'' \<mapsto> RegularFile (Some
          (ImgRGBA \<lparr>width = 1, height = 1, pixels = [(255, 255, 255, 255)]\<rparr>)),
        ''side.png'' \<mapsto> RegularFile (Some
          (ImgRGBA \<lparr>width = 1, height = 1, pixels = [(255, 255, 255, 255)]\<rparr>)),
        ''colourmap.png'' \<mapsto> RegularFile (Some
          (ImgRGB \<lparr>width = 256, height = 256, pixels = replicate 65536 (1, 2, 3)\<rparr>))]
   in exit_code out = 0
    \<and> (\<exists>top_coloured. files out ''out/grass_block_top_0.5_1.png''
          = Some (RegularFile (Some top_coloured)))
    \<and> (\<exists>side_coloured. files out ''out/grass_block_side_0.5_1.png''
          = Some (RegularFile (Some side_coloured)))
    \<and> (\<exists>rgb_line. stderr out =
          [rgb_line, Printed ''Wrote top  -> out/grass_block_top_0.5_1.png'',
           Printed ''Wrote side -> out/grass_block_side_0.5_1.png''])"
proof -
  let ?args = "\<lparr>a_top = ''top.png'', a_side_overlay = ''overlay.png'', a_side_base = ''side.png'',
        a_colormap = ''colourmap.png'', a_temperature = py_float (1 / 2),
        a_downfall = py_float 1, a_out_top = None, a_out_side = None\<rparr>"
  have t: "rstrip (rstrip (format_f 2 (a_temperature ?args)) ''0'') ''.'' = ''0.5''"
    using param_str_half by (simp add: param_str_def)
  have d: "rstrip (rstrip (format_f 2 (a_downfall ?args)) ''0'') ''.'' = ''1''"
    using param_str_one by (simp add: param_str_def)
  have n: "a_out_top ?args = None" "a_out_side ?args = None" by simp_all
  note run = default_run [of "\<lambda>p q. q"]
  show ?thesis
    unfolding Let_def
    using default_names [OF run n, unfolded t d] run by (simp only: append.simps) blast
qed

section \<open>The compositor returns an image of the size of the base\<close>










text \<open>An overlay of another mode than RGBA is refused, whatever its size.\<close>

lemma compositor_wrong_mode:
  assumes "\<forall>r. overlay \<noteq> ImgRGBA r"
  shows "composite_overlay_onto_base over base overlay = Inl ValueError"
proof -
  have a: "alpha_composite over b overlay = Inl ValueError" for b
    using assms by (cases "(over, b, overlay)" rule: alpha_composite.cases) simp_all
  have r: "resize overlay (w, h) = Inl ValueError \<or> (\<exists>img. resize overlay (w, h) = Inr img
      \<and> (\<forall>r. img \<noteq> ImgRGBA r))" for w h
    using assms by (cases overlay) simp_all
  have b: "alpha_composite over b img = Inl ValueError" if "\<forall>r. img \<noteq> ImgRGBA r" for b img
    using that by (cases "(over, b, img)" rule: alpha_composite.cases) simp_all
  show ?thesis
    unfolding composite_overlay_onto_base_def Let_def
    using a r [of "width (convert_RGBA base)" "height (convert_RGBA base)"] b
    by (auto simp del: resize.simps)
qed





end
